theory Spec2Isabelle
  imports Complex_Main "HOL-Library.Char_ord" "HOL-Library.List_Lexorder"
    "HOL-Library.Product_Lexorder" "HOL-Library.Multiset"
begin

section \<open>Data model: pandas tables as the program uses them\<close>

text \<open>
  A cell holds what \<^verbatim>\<open>pd.read_xml\<close> puts in an integer column (\<open>IntV\<close>), in a text column
  (\<open>StrV\<close>), or the missing-value marker (\<open>NaN\<close>). A cell with a fractional value (the
  columns \<open>satisfaction_level\<close> and \<open>last_evaluation\<close>) is \<open>FloatV\<close>, named by the string
  Python's \<^verbatim>\<open>repr\<close> gives the float, which identifies it; no arithmetic on such cells is
  defined here. A table (\<^verbatim>\<open>pd.DataFrame\<close>) is its list of column labels and its rows in
  order, each row carrying its index label and one cell per column.
\<close>

datatype val = IntV int | StrV string | FloatV string | NaN

record 'k frame =
  columns :: "string list"
  rows :: "('k \<times> val list) list"

text \<open>
  The exceptions the program lets through. A \<^verbatim>\<open>KeyError\<close> carries the label that was not found:
  one cell for a column name, two for a (\<open>left\<close>, \<open>salary\<close>) column of a pivot table.
\<close>

datatype exn = KeyError "val list" | ValueError string | TypeError string

definition index :: "'k frame \<Rightarrow> 'k list" where
  "index t = map fst (rows t)"

fun position :: "'a \<Rightarrow> 'a list \<Rightarrow> nat option" where
  "position c [] = None"
| "position c (x # xs) = (if c = x then Some 0 else map_option Suc (position c xs))"

text \<open>\<^verbatim>\<open>df[c]\<close>: the cells of column \<open>c\<close> in row order, \<^verbatim>\<open>KeyError\<close> when there is no such column.\<close>

definition column :: "'k frame \<Rightarrow> string \<Rightarrow> exn + val list" where
  "column t c = (case position c (columns t) of
       None \<Rightarrow> Inl (KeyError [StrV c])
     | Some j \<Rightarrow> Inr (map (\<lambda>r. snd r ! j) (rows t)))"

subsection \<open>\<^verbatim>\<open>str\<close> of a cell, as the f-string \<^verbatim>\<open>f'A{x}'\<close> formats it\<close>

definition digit_char :: "nat \<Rightarrow> char" where
  "digit_char d = ''0123456789'' ! d"

fun digits :: "nat \<Rightarrow> string" where
  "digits n = (if n < 10 then [digit_char n] else digits (n div 10) @ [digit_char (n mod 10)])"

declare digits.simps [simp del]

definition str_int :: "int \<Rightarrow> string" where
  "str_int i = (if i < 0 then CHR ''-'' # digits (nat (- i)) else digits (nat i))"

fun py_str :: "val \<Rightarrow> string" where
  "py_str (IntV i) = str_int i"
| "py_str (StrV s) = s"
| "py_str (FloatV s) = s"
| "py_str NaN = ''nan''"

text \<open>
  A numeric column with a missing or fractional cell is float64 in pandas, and \<^verbatim>\<open>str\<close> of a
  float that is a whole number ends in \<^verbatim>\<open>.0\<close>: the id 3 becomes \<^verbatim>\<open>3.0\<close>. (From \<open>10^16\<close> on
  Python writes floats with an exponent; that form is not spelled here.)
\<close>

fun float_str :: "val \<Rightarrow> string" where
  "float_str (IntV i) = str_int i @ ''.0''"
| "float_str (StrV s) = s"
| "float_str (FloatV s) = s"
| "float_str NaN = ''nan''"

fun is_str :: "val \<Rightarrow> bool" where
  "is_str (StrV s) = True"
| "is_str v = False"

fun is_int :: "val \<Rightarrow> bool" where
  "is_int (IntV i) = True"
| "is_int v = False"

fun int_of :: "val \<Rightarrow> int" where
  "int_of (IntV i) = i"
| "int_of v = 0"

text \<open>The strings of the cells of one column, by the dtype pandas gives the column.\<close>

fun is_float :: "val \<Rightarrow> bool" where
  "is_float (FloatV s) = True"
| "is_float v = False"

definition cell_strings :: "val list \<Rightarrow> string list" where
  "cell_strings ids =
     (if \<not> list_ex is_str ids \<and> list_ex (\<lambda>x. x = NaN \<or> is_float x) ids
      then map float_str ids
      else map py_str ids)"

section \<open>Identity Reindexer: \<^verbatim>\<open>reindex_dataframes\<close>\<close>

text \<open>
  \<^verbatim>\<open>df.index = [f'A{x}' for x in df['employee_office_id']]\<close>: every row gets the label made
  of the prefix and \<^verbatim>\<open>str\<close> of its raw id; rows, cells and columns stay as they are. Reading
  the column raises \<^verbatim>\<open>KeyError\<close> when it is missing. Nothing looks at whether labels repeat.
\<close>

definition reindex_office :: "string \<Rightarrow> 'k frame \<Rightarrow> exn + string frame" where
  "reindex_office p t = (case column t ''employee_office_id'' of
       Inl e \<Rightarrow> Inl e
     | Inr ids \<Rightarrow> Inr \<lparr>columns = columns t,
                       rows = zip (map (\<lambda>s. p @ s) (cell_strings ids)) (map snd (rows t))\<rparr>)"

text \<open>Keeping the cells whose column label satisfies \<open>keep\<close>.\<close>

definition select_cells :: "(string \<Rightarrow> bool) \<Rightarrow> string list \<Rightarrow> val list \<Rightarrow> val list" where
  "select_cells keep cs r = map snd (filter (\<lambda>(c, v). keep c) (zip cs r))"

text \<open>
  \<^verbatim>\<open>df.set_index('employee_id', inplace=True)\<close>: the column's cells become the row labels and
  the column leaves the table (\<^verbatim>\<open>drop=True\<close>); \<^verbatim>\<open>verify_integrity\<close> is left at its default
  \<^verbatim>\<open>False\<close>, so repeated labels are accepted.
\<close>

definition set_index :: "string \<Rightarrow> 'k frame \<Rightarrow> exn + val frame" where
  "set_index c t = (case column t c of
       Inl e \<Rightarrow> Inl e
     | Inr ks \<Rightarrow> Inr \<lparr>columns = filter (\<lambda>x. x \<noteq> c) (columns t),
                      rows = zip ks (map (\<lambda>r. select_cells (\<lambda>x. x \<noteq> c) (columns t) (snd r)) (rows t))\<rparr>)"

text \<open>The three assignments run in the source's order; the first exception ends the call.\<close>

definition reindex_dataframes ::
  "'a frame \<times> 'b frame \<times> 'c frame \<Rightarrow> exn + (string frame \<times> string frame \<times> val frame)" where
  "reindex_dataframes d = (case d of (a, b, h) \<Rightarrow>
     (case reindex_office ''A'' a of Inl e \<Rightarrow> Inl e | Inr a' \<Rightarrow>
     (case reindex_office ''B'' b of Inl e \<Rightarrow> Inl e | Inr b' \<Rightarrow>
     (case set_index ''employee_id'' h of Inl e \<Rightarrow> Inl e | Inr h' \<Rightarrow> Inr (a', b', h')))))"

section \<open>Dataset Unifier: \<^verbatim>\<open>generate_unified_dataset\<close>\<close>

text \<open>
  \<^verbatim>\<open>pd.concat([a, b], ignore_index=False)\<close>: rows of \<open>a\<close>, then rows of \<open>b\<close>, labels kept. The
  columns are those of \<open>a\<close> followed by the columns only \<open>b\<close> has; a cell a table has no column
  for is \<open>NaN\<close>.
\<close>

definition align :: "string list \<Rightarrow> string list \<Rightarrow> val list \<Rightarrow> val list" where
  "align cs own r = map (\<lambda>c. case position c own of None \<Rightarrow> NaN | Some j \<Rightarrow> r ! j) cs"

definition concat2 :: "'k frame \<Rightarrow> 'k frame \<Rightarrow> 'k frame" where
  "concat2 a b =
     (let cs = columns a @ filter (\<lambda>c. c \<notin> set (columns a)) (remdups (columns b))
      in \<lparr>columns = cs,
          rows = map (\<lambda>(k, r). (k, align cs (columns a) r)) (rows a)
               @ map (\<lambda>(k, r). (k, align cs (columns b) r)) (rows b)\<rparr>)"

text \<open>
  \<^verbatim>\<open>left.merge(right, left_index=True, right_index=True, how='inner')\<close>: one output row for
  every pair of a left row and a right row with equal labels, the left cells followed by the
  right cells. A column label both tables have gets the suffix \<^verbatim>\<open>_x\<close> on the left and \<^verbatim>\<open>_y\<close> on
  the right. The office labels are strings, so a right label matches when it is that string.
\<close>

definition merge_inner :: "string frame \<Rightarrow> val frame \<Rightarrow> string frame" where
  "merge_inner l r =
     \<lparr>columns = map (\<lambda>c. if c \<in> set (columns r) then c @ ''_x'' else c) (columns l)
               @ map (\<lambda>c. if c \<in> set (columns l) then c @ ''_y'' else c) (columns r),
      rows = concat (map (\<lambda>(k, lc).
                 map (\<lambda>(k', rc). (k, lc @ rc)) (filter (\<lambda>(k', rc). k' = StrV k) (rows r)))
               (rows l))\<rparr>"

text \<open>\<^verbatim>\<open>df.drop(columns=[col for col in columns_to_drop if col in df.columns])\<close>.\<close>

definition drop_columns :: "string list \<Rightarrow> 'k frame \<Rightarrow> 'k frame" where
  "drop_columns ds t =
     (let present = filter (\<lambda>c. c \<in> set (columns t)) ds
      in \<lparr>columns = filter (\<lambda>c. c \<notin> set present) (columns t),
          rows = map (\<lambda>(k, r). (k, select_cells (\<lambda>c. c \<notin> set present) (columns t) r)) (rows t)\<rparr>)"

text \<open>
  \<^verbatim>\<open>df.sort_index()\<close>: rows in ascending order of their labels. The labels are Python strings,
  compared character by character (the order of \<open>char list\<close>). pandas does not fix the order
  among rows with equal labels; here they keep their relative order, and nothing proved below
  depends on it.
\<close>

definition sort_index :: "string frame \<Rightarrow> string frame" where
  "sort_index t = \<lparr>columns = columns t, rows = sort_key fst (rows t)\<rparr>"

definition columns_to_drop :: "string list" where
  "columns_to_drop = [''employee_office_id'', ''employee_id'']"

definition generate_unified_dataset ::
  "string frame \<Rightarrow> string frame \<Rightarrow> val frame \<Rightarrow> exn + string frame" where
  "generate_unified_dataset a b h =
     Inr (sort_index (drop_columns columns_to_drop (merge_inner (concat2 a b) h)))"

section \<open>Schema Validator: \<^verbatim>\<open>validate_dataset\<close>\<close>

definition required_columns :: "string list" where
  "required_columns =
     [''number_project'', ''average_monthly_hours'', ''time_spend_company'',
      ''Work_accident'', ''promotion_last_5years'', ''Department'', ''salary'',
      ''satisfaction_level'', ''last_evaluation'', ''left'']"

text \<open>The list the validator builds and hands to the logger when it is not empty.\<close>

definition missing_columns :: "'k frame \<Rightarrow> string list" where
  "missing_columns t = filter (\<lambda>c. c \<notin> set (columns t)) required_columns"

definition validate_dataset :: "'k frame \<Rightarrow> bool" where
  "validate_dataset t = (if missing_columns t \<noteq> [] then False else True)"

section \<open>Analytical queries\<close>

text \<open>
  Group labels of \<^verbatim>\<open>groupby\<close> and of a pivot table come out sorted. Integers sort by value and strings character by
  character; the order between cells of different kinds is fixed here only to make the
  sort total.
\<close>

fun val_key :: "val \<Rightarrow> nat \<times> int \<times> string" where
  "val_key (IntV i) = (0, i, [])"
| "val_key (StrV s) = (1, 0, s)"
| "val_key (FloatV s) = (2, 0, s)"
| "val_key NaN = (3, 0, [])"

subsection \<open>\<^verbatim>\<open>employees_metrics\<close>\<close>

text \<open>
  \<^verbatim>\<open>(series > 5).sum()\<close>: the comparison gives one boolean per cell, false for a missing cell,
  and the sum counts the true ones. The column holds whole numbers; the comparison of a
  fractional cell is not defined here and counts as false.
\<close>

fun greater_than :: "int \<Rightarrow> val \<Rightarrow> bool" where
  "greater_than k (IntV i) = (k < i)"
| "greater_than k v = False"

definition count_bigger_5 :: "val list \<Rightarrow> int" where
  "count_bigger_5 series = sum_list (map (\<lambda>v. if greater_than 5 v then 1 else 0) series)"

text \<open>
  The median of a group of integer cells: the middle value, or the mean of the two middle
  values. No value, no median (\<open>None\<close> stands for a \<open>NaN\<close> result).
  pandas computes it in float64. For integers of magnitude below \<open>2^45\<close> the median, its
  product with 100 and the rounded quotient are exact there, so the cells are given as
  rationals; every statement about them below carries that bound.
\<close>

definition median :: "int list \<Rightarrow> rat option" where
  "median xs =
     (let s = sort xs; n = length s
      in if n = 0 then None
         else if odd n then Some (of_int (s ! (n div 2)))
         else Some ((of_int (s ! (n div 2 - 1)) + of_int (s ! (n div 2))) / 2))"

text \<open>\<^verbatim>\<open>.round(2)\<close>: to two decimals, a tie going to the even neighbour.\<close>

definition round2 :: "rat \<Rightarrow> rat" where
  "round2 q =
     (let y = q * 100; f = \<lfloor>y\<rfloor>; d = y - of_int f
      in of_int (if d < 1 / 2 then f else if 1 / 2 < d then f + 1
                 else if even f then f else f + 1) / 100)"

text \<open>The integers of a list of cells, missing cells skipped (\<^verbatim>\<open>skipna\<close>).\<close>

definition present_ints :: "val list \<Rightarrow> int list" where
  "present_ints cs = map int_of (filter (\<lambda>v. v \<noteq> NaN) cs)"

text \<open>
  The mean and the standard deviation are float64 arithmetic of the library (\<^verbatim>\<open>'mean'\<close>, and
  \<^verbatim>\<open>'std'\<close> with its default \<^verbatim>\<open>ddof=1\<close>), and so is \<^verbatim>\<open>round(2)\<close> of their results. They are
  parameters here: each aggregate receives the cells of its column in one group.
\<close>

record 'r float_aggs =
  mean64 :: "val list \<Rightarrow> 'r"
  std64 :: "val list \<Rightarrow> 'r"
  round64 :: "'r \<Rightarrow> 'r"

text \<open>
  One cell of the result: an exact median (rounded), the count, or a float of the library.
\<close>

datatype 'r metric = Exact "rat option" | Count int | Float 'r

text \<open>The cells \<open>cs\<close> of the rows whose \<open>left\<close> cell (in \<open>ls\<close>) is \<open>g\<close>.\<close>

definition group_cells :: "val list \<Rightarrow> val list \<Rightarrow> val \<Rightarrow> val list" where
  "group_cells ls cs g = map snd (filter (\<lambda>(l, c). l = g) (zip ls cs))"

text \<open>
  \<^verbatim>\<open>dataset.groupby(['left']).agg({...}).round(2).to_dict()\<close>: one group per value of \<open>left\<close>
  that occurs (rows without a \<open>left\<close> cell belong to no group), groups sorted; the dictionary
  has one entry per (column, aggregate) pair, in the order of the source, each mapping the
  groups to their values. Aggregating a column of text is a \<^verbatim>\<open>TypeError\<close>. When \<open>left\<close> has a
  missing cell pandas holds the column as float64 and the group labels are the floats
  \<^verbatim>\<open>0.0\<close> and \<^verbatim>\<open>1.0\<close>, the same dictionary keys as 0 and 1 in Python; they are \<open>IntV\<close> here.
\<close>

definition aggregate_metrics ::
  "'r float_aggs \<Rightarrow> 'k frame \<Rightarrow> exn + ((string \<times> string) \<times> (val \<times> 'r metric) list) list" where
  "aggregate_metrics fa dataset =
     (case column dataset ''left'' of Inl e \<Rightarrow> Inl e | Inr ls \<Rightarrow>
     (case column dataset ''number_project'' of Inl e \<Rightarrow> Inl e | Inr np \<Rightarrow>
     (case column dataset ''time_spend_company'' of Inl e \<Rightarrow> Inl e | Inr tc \<Rightarrow>
     (case column dataset ''Work_accident'' of Inl e \<Rightarrow> Inl e | Inr wa \<Rightarrow>
     (case column dataset ''last_evaluation'' of Inl e \<Rightarrow> Inl e | Inr le \<Rightarrow>
        if list_ex is_str (np @ tc @ wa @ le) then Inl (TypeError ''agg'')
        else
          let groups = sort_key val_key (remdups (filter (\<lambda>l. l \<noteq> NaN) ls));
              per_group = (\<lambda>f. map (\<lambda>g. (g, f g)) groups)
          in Inr
            [((''number_project'', ''median''),
                per_group (\<lambda>g. Exact (map_option round2 (median (present_ints (group_cells ls np g)))))),
             ((''number_project'', ''count_bigger_5''),
                per_group (\<lambda>g. Count (count_bigger_5 (group_cells ls np g)))),
             ((''time_spend_company'', ''mean''),
                per_group (\<lambda>g. Float (round64 fa (mean64 fa (group_cells ls tc g))))),
             ((''time_spend_company'', ''median''),
                per_group (\<lambda>g. Exact (map_option round2 (median (present_ints (group_cells ls tc g)))))),
             ((''Work_accident'', ''mean''),
                per_group (\<lambda>g. Float (round64 fa (mean64 fa (group_cells ls wa g))))),
             ((''last_evaluation'', ''mean''),
                per_group (\<lambda>g. Float (round64 fa (mean64 fa (group_cells ls le g))))),
             ((''last_evaluation'', ''std''),
                per_group (\<lambda>g. Float (round64 fa (std64 fa (group_cells ls le g)))))])))))"

text \<open>
  The method validates first and raises \<^verbatim>\<open>ValueError("Dataset validation failed")\<close> when the
  validator says no; only then does it aggregate.
\<close>

definition employees_metrics ::
  "'r float_aggs \<Rightarrow> 'k frame \<Rightarrow> exn + ((string \<times> string) \<times> (val \<times> 'r metric) list) list" where
  "employees_metrics fa dataset =
     (if \<not> validate_dataset dataset then Inl (ValueError ''Dataset validation failed'')
      else aggregate_metrics fa dataset)"


subsection \<open>\<^verbatim>\<open>top_10_departments_by_hours\<close>\<close>

text \<open>
  The library's default sort (\<^verbatim>\<open>kind='quicksort'\<close>) is not stable: numpy promises the positions
  of the values in an ascending order of the values and nothing about equal values. It is the
  parameter \<open>argsort\<close> of the ranking, and \<open>is_argsort\<close> says what is promised of its result.
\<close>

definition is_argsort :: "nat list \<Rightarrow> int list \<Rightarrow> bool" where
  "is_argsort perm xs = (sort perm = [0..<length xs] \<and> sorted (map ((!) xs) perm))"

text \<open>
  \<^verbatim>\<open>df.nlargest(n, c)\<close> with the default \<^verbatim>\<open>keep='first'\<close>. A column of text (dtype \<^verbatim>\<open>object\<close>) is
  refused with \<^verbatim>\<open>TypeError\<close>; a missing column is a \<^verbatim>\<open>KeyError\<close> (the dtype is read off the
  cells, so a column without rows counts as numeric). Rows whose value is missing come after
  all others, in table order. For the other rows pandas has two paths:
  \<^item> the table has more than \<open>n\<close> rows: a stable selection (\<^verbatim>\<open>kind='mergesort'\<close> on the negated
    values), so descending values and equal values in table order;
  \<^item> otherwise \<^verbatim>\<open>sort_values(ascending=False)\<close> with the default sort: the values are
    reversed, sorted ascending by \<open>argsort\<close>, and the outcome reversed again.
  Of that the first \<open>n\<close> rows are returned.
\<close>

definition nlargest ::
  "(int list \<Rightarrow> nat list) \<Rightarrow> nat \<Rightarrow> string \<Rightarrow> 'k frame \<Rightarrow> exn + 'k frame" where
  "nlargest argsort n c t = (case column t c of
       Inl e \<Rightarrow> Inl e
     | Inr vs \<Rightarrow>
         if list_ex is_str vs then Inl (TypeError c)
         else
           let keyed = zip vs (rows t);
               present = filter (\<lambda>(v, r). v \<noteq> NaN) keyed;
               absent = filter (\<lambda>(v, r). v = NaN) keyed;
               ranked =
                 (if length (rows t) \<le> n
                  then let reversed = rev present
                       in rev (map ((!) reversed) (argsort (map (\<lambda>(v, r). int_of v) reversed)))
                  else sort_key (\<lambda>(v, r). - int_of v) present)
           in Inr \<lparr>columns = columns t,
                   rows = take n (map snd ranked @ map snd absent)\<rparr>)"

definition top_10_departments_by_hours ::
  "(int list \<Rightarrow> nat list) \<Rightarrow> 'k frame \<Rightarrow> exn + val list" where
  "top_10_departments_by_hours argsort dataset =
     (case nlargest argsort 10 ''average_monthly_hours'' dataset of
        Inl e \<Rightarrow> Inl e
      | Inr top_10 \<Rightarrow> column top_10 ''Department'')"

text \<open>
  One sort that keeps what numpy promises and puts equal values in the reverse of their
  order in the input.
\<close>

definition ties_reversed :: "int list \<Rightarrow> nat list" where
  "ties_reversed xs = rev (sort_key (\<lambda>i. - (xs ! i)) [0..<length xs])"

subsection \<open>\<^verbatim>\<open>median_salaries_by_department\<close>\<close>

record pivot =
  pcolumns :: "(val \<times> val) list"
  prows :: "(val \<times> rat option list) list"

text \<open>
  \<^verbatim>\<open>df.pivot_table(index=i, columns=[c1, c2], values=v, aggfunc='median')\<close>. The value column
  is looked up first, then the grouping columns. Rows with a missing cell in one of the four
  columns take no part. The table has one row per remaining \<open>i\<close> value and one column per
  remaining (\<open>c1\<close>, \<open>c2\<close>) pair, both sorted; a cell is the median of its group, and is
  missing when no row falls in the group. Text in the value column is a \<^verbatim>\<open>TypeError\<close>.
\<close>

definition pivot_table_median ::
  "string \<Rightarrow> string \<Rightarrow> string \<Rightarrow> string \<Rightarrow> 'k frame \<Rightarrow> exn + pivot" where
  "pivot_table_median i c1 c2 v t =
     (case column t v of Inl e \<Rightarrow> Inl e | Inr hs \<Rightarrow>
     (case column t i of Inl e \<Rightarrow> Inl e | Inr ds \<Rightarrow>
     (case column t c1 of Inl e \<Rightarrow> Inl e | Inr ls \<Rightarrow>
     (case column t c2 of Inl e \<Rightarrow> Inl e | Inr ss \<Rightarrow>
        if list_ex is_str hs then Inl (TypeError v)
        else
          let obs = filter (\<lambda>(d, l, s, h). d \<noteq> NaN \<and> l \<noteq> NaN \<and> s \<noteq> NaN \<and> h \<noteq> NaN)
                      (zip ds (zip ls (zip ss hs)));
              labels = sort_key val_key (remdups (map (\<lambda>(d, l, s, h). d) obs));
              cols = sort_key (\<lambda>(l, s). (val_key l, val_key s))
                      (remdups (map (\<lambda>(d, l, s, h). (l, s)) obs))
          in Inr \<lparr>pcolumns = cols,
                  prows = map (\<lambda>d. (d, map (\<lambda>(l, s).
                              median (map (\<lambda>(d', l', s', h). int_of h)
                                (filter (\<lambda>(d', l', s', h). d' = d \<and> l' = l \<and> s' = s) obs)))
                            cols))
                          labels\<rparr>))))"

definition pround2 :: "pivot \<Rightarrow> pivot" where
  "pround2 p = \<lparr>pcolumns = pcolumns p,
                 prows = map (\<lambda>(d, cs). (d, map (map_option round2) cs)) (prows p)\<rparr>"

text \<open>\<^verbatim>\<open>result[(l, s)]\<close>: one column of the pivot table, \<^verbatim>\<open>KeyError\<close> when it has no such column.\<close>

definition pcolumn :: "pivot \<Rightarrow> val \<times> val \<Rightarrow> exn + rat option list" where
  "pcolumn p c = (case position c (pcolumns p) of
       None \<Rightarrow> Inl (KeyError [fst c, snd c])
     | Some j \<Rightarrow> Inr (map (\<lambda>r. snd r ! j) (prows p)))"

text \<open>\<^verbatim>\<open><\<close> on two cells: false as soon as one of them is missing.\<close>

fun cell_less :: "rat option \<Rightarrow> rat option \<Rightarrow> bool" where
  "cell_less (Some a) (Some b) = (a < b)"
| "cell_less a b = False"

definition median_salaries_by_department :: "'k frame \<Rightarrow> exn + pivot" where
  "median_salaries_by_department dataset =
     (case pivot_table_median ''Department'' ''left'' ''salary'' ''average_monthly_hours'' dataset of
        Inl e \<Rightarrow> Inl e
      | Inr table \<Rightarrow>
          let result = pround2 table in
          (case pcolumn result (IntV 0, StrV ''high'') of Inl e \<Rightarrow> Inl e | Inr a \<Rightarrow>
          (case pcolumn result (IntV 0, StrV ''medium'') of Inl e \<Rightarrow> Inl e | Inr b \<Rightarrow>
          (case pcolumn result (IntV 1, StrV ''low'') of Inl e \<Rightarrow> Inl e | Inr c \<Rightarrow>
          (case pcolumn result (IntV 1, StrV ''high'') of Inl e \<Rightarrow> Inl e | Inr d \<Rightarrow>
             let condition1 = map2 cell_less a b;
                 condition2 = map2 cell_less c d;
                 keep = map2 (\<or>) condition1 condition2
             in Inr \<lparr>pcolumns = pcolumns result,
                     prows = map fst (filter snd (zip (prows result) keep))\<rparr>)))))"

subsection \<open>\<^verbatim>\<open>generate_comprehensive_report\<close>\<close>

text \<open>
  The report is a dictionary literal: Python evaluates its entries in the order written, so
  the table's shape, column list and first ten labels come first, then \<^verbatim>\<open>employees_metrics\<close>,
  then the two pivots, then the three insights; the first exception ends the call. The
  queries that no statement here depends on are the fields of \<open>other\<close>; \<open>argsort\<close> is the
  library's default sort and \<open>fa\<close> its float aggregates.
\<close>

record 'r unmodelled =
  employees_time_spend_company :: "string frame \<Rightarrow> exn + 'r"
  total_projects_it_low_salary :: "string frame \<Rightarrow> exn + 'r"
  specific_employees_data :: "string frame \<Rightarrow> exn + 'r"

record 'r report =
  shape :: "nat \<times> nat"
  report_columns :: "string list"
  index_sample :: "string list"
  employee_metrics :: "((string \<times> string) \<times> (val \<times> 'r metric) list) list"
  department_analysis :: pivot
  time_analysis :: 'r
  top_departments :: "val list"
  it_projects_total :: 'r
  specific_employees :: 'r

definition generate_comprehensive_report ::
  "(int list \<Rightarrow> nat list) \<Rightarrow> 'r float_aggs \<Rightarrow> 'r unmodelled \<Rightarrow> string frame option
     \<Rightarrow> exn + 'r report" where
  "generate_comprehensive_report argsort fa other unified =
     (case unified of
        None \<Rightarrow> Inl (ValueError ''Unified dataset not available'')
      | Some dataset \<Rightarrow>
         (case employees_metrics fa dataset of Inl e \<Rightarrow> Inl e | Inr em \<Rightarrow>
         (case median_salaries_by_department dataset of Inl e \<Rightarrow> Inl e | Inr da \<Rightarrow>
         (case employees_time_spend_company other dataset of Inl e \<Rightarrow> Inl e | Inr ta \<Rightarrow>
         (case top_10_departments_by_hours argsort dataset of Inl e \<Rightarrow> Inl e | Inr td \<Rightarrow>
         (case total_projects_it_low_salary other dataset of Inl e \<Rightarrow> Inl e | Inr it \<Rightarrow>
         (case specific_employees_data other dataset of Inl e \<Rightarrow> Inl e | Inr se \<Rightarrow>
            Inr \<lparr>shape = (length (rows dataset), length (columns dataset)),
                  report_columns = columns dataset,
                  index_sample = take 10 (index dataset),
                  employee_metrics = em,
                  department_analysis = da,
                  time_analysis = ta,
                  top_departments = td,
                  it_projects_total = it,
                  specific_employees = se\<rparr>)))))))"

section \<open>Concrete tables\<close>

definition office_example :: "nat frame" where
  "office_example =
     \<lparr>columns = [''employee_office_id'', ''number_project''],
      rows = [(0, [IntV 12, IntV 3]), (1, [IntV 7, IntV 5]), (2, [IntV 120, IntV 2])]\<rparr>"

definition office_dup :: "nat frame" where
  "office_dup =
     \<lparr>columns = [''employee_office_id'', ''number_project''],
      rows = [(0, [IntV 1, IntV 3]), (1, [IntV 1, IntV 5])]\<rparr>"

definition hr_dup :: "nat frame" where
  "hr_dup =
     \<lparr>columns = [''employee_id'', ''salary''],
      rows = [(0, [StrV ''A1'', StrV ''low'']), (1, [StrV ''A1'', StrV ''high''])]\<rparr>"

definition office_a :: "nat frame" where
  "office_a =
     \<lparr>columns = [''employee_office_id'', ''number_project'', ''average_monthly_hours''],
      rows = [(0, [IntV 10, IntV 3, IntV 160]), (1, [IntV 2, IntV 6, IntV 250]),
              (2, [IntV 1, IntV 4, IntV 201])]\<rparr>"

definition office_b :: "nat frame" where
  "office_b =
     \<lparr>columns = [''employee_office_id'', ''number_project'', ''average_monthly_hours''],
      rows = [(0, [IntV 2, IntV 2, IntV 140]), (1, [IntV 5, IntV 7, IntV 310])]\<rparr>"

definition hr :: "nat frame" where
  "hr =
     \<lparr>columns = [''employee_id'', ''salary'', ''left''],
      rows = [(0, [StrV ''B5'', StrV ''low'', IntV 1]), (1, [StrV ''A1'', StrV ''high'', IntV 0]),
              (2, [StrV ''A3'', StrV ''low'', IntV 0]), (3, [StrV ''A10'', StrV ''medium'', IntV 0]),
              (4, [StrV ''B9'', StrV ''low'', IntV 1])]\<rparr>"

definition hr_empty :: "nat frame" where
  "hr_empty = \<lparr>columns = [''employee_id'', ''salary'', ''left''], rows = []\<rparr>"

definition office_a_keyed :: "string frame" where
  "office_a_keyed =
     \<lparr>columns = [''employee_office_id'', ''number_project'', ''average_monthly_hours''],
      rows = [(''A10'', [IntV 10, IntV 3, IntV 160]), (''A2'', [IntV 2, IntV 6, IntV 250]),
              (''A1'', [IntV 1, IntV 4, IntV 201])]\<rparr>"

definition office_b_keyed :: "string frame" where
  "office_b_keyed =
     \<lparr>columns = [''employee_office_id'', ''number_project'', ''average_monthly_hours''],
      rows = [(''B2'', [IntV 2, IntV 2, IntV 140]), (''B5'', [IntV 5, IntV 7, IntV 310])]\<rparr>"

definition hr_keyed :: "val frame" where
  "hr_keyed =
     \<lparr>columns = [''salary'', ''left''],
      rows = [(StrV ''B5'', [StrV ''low'', IntV 1]), (StrV ''A1'', [StrV ''high'', IntV 0]),
              (StrV ''A3'', [StrV ''low'', IntV 0]), (StrV ''A10'', [StrV ''medium'', IntV 0]),
              (StrV ''B9'', [StrV ''low'', IntV 1])]\<rparr>"

definition hr_empty_keyed :: "val frame" where
  "hr_empty_keyed = \<lparr>columns = [''salary'', ''left''], rows = []\<rparr>"

definition unified_example :: "string frame" where
  "unified_example =
     \<lparr>columns = [''number_project'', ''average_monthly_hours'', ''salary'', ''left''],
      rows = [(''A1'', [IntV 4, IntV 201, StrV ''high'', IntV 0]),
              (''A10'', [IntV 3, IntV 160, StrV ''medium'', IntV 0]),
              (''B5'', [IntV 7, IntV 310, StrV ''low'', IntV 1])]\<rparr>"

definition office_empty_keyed :: "string frame" where
  "office_empty_keyed =
     \<lparr>columns = [''employee_office_id'', ''number_project'', ''average_monthly_hours''],
      rows = []\<rparr>"

section \<open>Ranking of rows by a column\<close>

text \<open>
  The rank of a cell in a descending ranking: integers by descending value, a missing cell
  after every integer.
\<close>

fun hours_rank :: "val \<Rightarrow> nat \<times> int" where
  "hours_rank NaN = (1, 0)"
| "hours_rank v = (0, - int_of v)"

text \<open>
  Row \<open>i\<close> ranks before row \<open>j\<close> by the cells \<open>hs\<close> when its cell has the better rank, or the
  ranks are equal and \<open>i\<close> is the earlier row of the table. Row \<open>i\<close> ranks not after row \<open>j\<close>
  when its cell has the better or the same rank, whatever the rows' places in the table.
\<close>

definition ranks_before :: "val list \<Rightarrow> nat \<Rightarrow> nat \<Rightarrow> bool" where
  "ranks_before hs i j =
     (hours_rank (hs ! i) < hours_rank (hs ! j)
      \<or> (hours_rank (hs ! i) = hours_rank (hs ! j) \<and> i < j))"

definition ranks_not_after :: "val list \<Rightarrow> nat \<Rightarrow> nat \<Rightarrow> bool" where
  "ranks_not_after hs i j = (hours_rank (hs ! i) \<le> hours_rank (hs ! j))"

text \<open>
  A numeric column as pandas holds it without loss: every cell is missing or an integer of
  magnitude below \<open>b\<close> (an int64 column, or a float64 column whose values are exact).
\<close>

definition exact_cells :: "int \<Rightarrow> val list \<Rightarrow> bool" where
  "exact_cells b hs = list_all (\<lambda>h. h = NaN \<or> (is_int h \<and> \<bar>int_of h\<bar> < b)) hs"

text \<open>The same relation as \<open>ranks_before\<close> for any integer sort key \<open>k\<close> of the rows, ascending.\<close>

definition key_before :: "(nat \<Rightarrow> int) \<Rightarrow> nat \<Rightarrow> nat \<Rightarrow> bool" where
  "key_before k i j = (k i < k j \<or> (k i = k j \<and> i < j))"

text \<open>
  The two rankings of \<open>nlargest\<close> as lists of row positions: the positions with a value, those
  without, the stable descending order and the order that goes through \<open>argsort\<close>.
\<close>

definition present_positions :: "val list \<Rightarrow> nat list" where
  "present_positions hs = filter (\<lambda>i. hs ! i \<noteq> NaN) [0..<length hs]"

definition absent_positions :: "val list \<Rightarrow> nat list" where
  "absent_positions hs = filter (\<lambda>i. hs ! i = NaN) [0..<length hs]"

definition stable_order :: "val list \<Rightarrow> nat list" where
  "stable_order hs =
     sort_key (\<lambda>i. - int_of (hs ! i)) (present_positions hs) @ absent_positions hs"

definition library_order :: "(int list \<Rightarrow> nat list) \<Rightarrow> val list \<Rightarrow> nat list" where
  "library_order argsort hs =
     (let reversed = rev (present_positions hs)
      in rev (map ((!) reversed) (argsort (map (\<lambda>i. int_of (hs ! i)) reversed))))
     @ absent_positions hs"

definition four_rows :: "string frame" where
  "four_rows =
     \<lparr>columns = [''Department'', ''average_monthly_hours''],
      rows = [(''A1'', [StrV ''d0'', IntV 1]), (''A2'', [StrV ''d1'', IntV 1]),
              (''A3'', [StrV ''d2'', IntV 2]), (''A4'', [StrV ''d3'', IntV 2])]\<rparr>"

definition four_rows_more :: "string frame" where
  "four_rows_more =
     \<lparr>columns = [''salary'', ''average_monthly_hours'', ''Department''],
      rows = [(''B1'', [StrV ''low'', IntV 1, StrV ''IT'']),
              (''B2'', [StrV ''low'', IntV 1, StrV ''sales'']),
              (''B3'', [StrV ''high'', IntV 2, StrV ''hr'']),
              (''B4'', [StrV ''medium'', IntV 2, StrV ''support''])]\<rparr>"

definition twelve_rows :: "string frame" where
  "twelve_rows =
     \<lparr>columns = [''Department'', ''average_monthly_hours''],
      rows = [(''A1'', [StrV ''d0'', IntV 5]), (''A2'', [StrV ''d1'', NaN]),
              (''A3'', [StrV ''d2'', IntV 7]), (''A4'', [StrV ''d3'', IntV 5]),
              (''A5'', [StrV ''d4'', IntV 9]), (''A6'', [StrV ''d5'', IntV 7]),
              (''B1'', [StrV ''d6'', IntV 3]), (''B2'', [StrV ''d7'', IntV 8]),
              (''B3'', [StrV ''d8'', IntV 3]), (''B4'', [StrV ''d9'', IntV 6]),
              (''B5'', [StrV ''d10'', IntV 4]), (''B6'', [StrV ''d11'', IntV 2])]\<rparr>"

definition fifteen_rows :: "string frame" where
  "fifteen_rows =
     \<lparr>columns = [''Department'', ''average_monthly_hours''],
      rows = [(''A1'', [StrV ''sales'', IntV 107]), (''A2'', [StrV ''IT'', IntV 100]),
              (''A3'', [StrV ''hr'', IntV 114]), (''A4'', [StrV ''support'', IntV 103]),
              (''A5'', [StrV ''IT'', IntV 110]), (''A6'', [StrV ''sales'', IntV 105]),
              (''A7'', [StrV ''management'', IntV 112]), (''A8'', [StrV ''hr'', IntV 101]),
              (''B1'', [StrV ''technical'', IntV 109]), (''B2'', [StrV ''sales'', IntV 113]),
              (''B3'', [StrV ''IT'', IntV 102]), (''B4'', [StrV ''RandD'', IntV 108]),
              (''B5'', [StrV ''marketing'', IntV 104]), (''B6'', [StrV ''accounting'', IntV 111]),
              (''B7'', [StrV ''product_mng'', IntV 106])]\<rparr>"

definition three_rows :: "string frame" where
  "three_rows =
     \<lparr>columns = [''Department'', ''average_monthly_hours''],
      rows = [(''A1'', [StrV ''IT'', IntV 200]), (''A2'', [StrV ''sales'', IntV 250]),
              (''B1'', [StrV ''hr'', IntV 200])]\<rparr>"

section \<open>Cells of the department pivot, read off the table\<close>

text \<open>
  The rows of the table as (\<open>Department\<close>, \<open>left\<close>, \<open>salary\<close>, hours), given its four columns,
  without those that miss one of the four cells; the departments and the (\<open>left\<close>, \<open>salary\<close>)
  pairs that occur in them.
\<close>

definition complete_rows ::
  "val list \<Rightarrow> val list \<Rightarrow> val list \<Rightarrow> val list \<Rightarrow> (val \<times> val \<times> val \<times> val) list" where
  "complete_rows ds ls ss hs =
     filter (\<lambda>(d, l, s, h). d \<noteq> NaN \<and> l \<noteq> NaN \<and> s \<noteq> NaN \<and> h \<noteq> NaN)
       (zip ds (zip ls (zip ss hs)))"



text \<open>
  The hours of the complete rows whose \<open>Department\<close>, \<open>left\<close> and \<open>salary\<close> cells are \<open>d\<close>,
  \<open>l\<close> and \<open>s\<close>, and the rounded median of that group (\<open>None\<close> when the group has no row).
\<close>

definition group_hours ::
  "val list \<Rightarrow> val list \<Rightarrow> val list \<Rightarrow> val list \<Rightarrow> val \<Rightarrow> val \<Rightarrow> val \<Rightarrow> int list" where
  "group_hours ds ls ss hs d l s =
     map (\<lambda>(d', l', s', h). int_of h)
       (filter (\<lambda>(d', l', s', h). d' = d \<and> l' = l \<and> s' = s) (complete_rows ds ls ss hs))"

definition group_median ::
  "val list \<Rightarrow> val list \<Rightarrow> val list \<Rightarrow> val list \<Rightarrow> val \<Rightarrow> val \<Rightarrow> val \<Rightarrow> rat option" where
  "group_median ds ls ss hs d l s = map_option round2 (median (group_hours ds ls ss hs d l s))"




text \<open>Row and column labels of the pivot table: the distinct values, sorted.\<close>

definition dept_labels :: "val list \<Rightarrow> val list" where
  "dept_labels xs = sort_key val_key (remdups xs)"

definition pair_labels :: "(val \<times> val) list \<Rightarrow> (val \<times> val) list" where
  "pair_labels ps = sort_key (\<lambda>(l, s). (val_key l, val_key s)) (remdups ps)"

definition constant_queries :: "nat unmodelled" where
  "constant_queries =
     \<lparr>employees_time_spend_company = (\<lambda>t. Inr 2),
      total_projects_it_low_salary = (\<lambda>t. Inr 3), specific_employees_data = (\<lambda>t. Inr 4)\<rparr>"

text \<open>Stand-ins for the float aggregates: the number of cells they are given.\<close>

definition counting_aggs :: "nat float_aggs" where
  "counting_aggs = \<lparr>mean64 = length, std64 = length, round64 = (\<lambda>x. x)\<rparr>"

definition metrics_example :: "string frame" where
  "metrics_example =
     \<lparr>columns = [''number_project'', ''average_monthly_hours'', ''time_spend_company'',
                  ''Work_accident'', ''promotion_last_5years'', ''Department'', ''salary'',
                  ''satisfaction_level'', ''last_evaluation'', ''left''],
      rows = [(''A1'', [IntV 2, IntV 150, IntV 3, IntV 0, IntV 0, StrV ''IT'', StrV ''low'',
                        FloatV ''0.38'', FloatV ''0.53'', IntV 0]),
              (''A2'', [IntV 7, IntV 160, IntV 6, IntV 1, IntV 0, StrV ''IT'', StrV ''high'',
                        FloatV ''0.8'', FloatV ''0.86'', IntV 0]),
              (''A3'', [IntV 6, IntV 170, IntV 4, IntV 0, IntV 1, StrV ''sales'', StrV ''low'',
                        FloatV ''0.11'', FloatV ''0.88'', IntV 0]),
              (''B1'', [IntV 5, IntV 180, IntV 5, IntV 0, IntV 0, StrV ''hr'', StrV ''medium'',
                        FloatV ''0.72'', FloatV ''0.87'', IntV 0])]\<rparr>"

section \<open>Metrics of a group, read off the table\<close>

text \<open>
  The positions of the rows of the group \<open>g\<close>, in table order, given the cells \<open>ls\<close> of the
  column \<open>left\<close>; and the cells a column \<open>cs\<close> has in those rows.
\<close>

definition rows_of_group :: "val list \<Rightarrow> val \<Rightarrow> nat list" where
  "rows_of_group ls g = filter (\<lambda>i. ls ! i = g) [0..<length ls]"

definition cells_of_group :: "val list \<Rightarrow> val list \<Rightarrow> val \<Rightarrow> val list" where
  "cells_of_group ls cs g = map ((!) cs) (rows_of_group ls g)"

text \<open>The number of rows of the group with more than five projects.\<close>

definition more_than_five :: "val list \<Rightarrow> val list \<Rightarrow> val \<Rightarrow> int" where
  "more_than_five ls np g =
     int (length (filter (\<lambda>i. is_int (np ! i) \<and> 5 < int_of (np ! i)) (rows_of_group ls g)))"


section \<open>Decimal strings\<close>

lemma lt10_cases: "d < 10 \<Longrightarrow> d \<in> {0, 1, 2, 3, 4, 5, 6, 7, 8, 9::nat}"
  by auto

lemma digit_char_inj: "a < 10 \<Longrightarrow> b < 10 \<Longrightarrow> digit_char a = digit_char b \<Longrightarrow> a = b"
  using lt10_cases[of a] lt10_cases[of b] by (auto simp: digit_char_def)

lemma digit_char_not_minus: "d < 10 \<Longrightarrow> digit_char d \<noteq> CHR ''-''"
  using lt10_cases[of d] by (auto simp: digit_char_def)

lemma digits_not_Nil: "digits n \<noteq> []"
  by (subst digits.simps) simp

lemma digits_last: "last (digits n) = digit_char (n mod 10)"
  by (subst digits.simps) simp

lemma digits_butlast: "butlast (digits n) = (if n < 10 then [] else digits (n div 10))"
  by (subst digits.simps) (simp add: butlast_append)

lemma digits_inj: "digits n = digits m \<Longrightarrow> n = m"
proof (induction n arbitrary: m rule: digits.induct)
  case (1 n)
  from "1.prems" have l: "digit_char (n mod 10) = digit_char (m mod 10)"
    using digits_last by metis
  then have md: "n mod 10 = m mod 10" by (intro digit_char_inj) simp_all
  from "1.prems" have bl: "butlast (digits n) = butlast (digits m)" by simp
  show ?case
  proof (cases "n < 10")
    case True
    with bl have "m < 10" using digits_not_Nil[of "m div 10"] by (auto simp: digits_butlast split: if_splits)
    with True md show ?thesis by simp
  next
    case False
    with bl have m: "\<not> m < 10" and e: "digits (n div 10) = digits (m div 10)"
      using digits_not_Nil[of "n div 10"] by (auto simp: digits_butlast split: if_splits)
    from "1.IH"[OF False e] have "n div 10 = m div 10" .
    with md show ?thesis by (metis div_mult_mod_eq)
  qed
qed

lemma digits_hd: "hd (digits n) \<noteq> CHR ''-''"
proof (induction n rule: digits.induct)
  case (1 n)
  show ?case
  proof (cases "n < 10")
    case True then show ?thesis by (subst digits.simps) (simp add: digit_char_not_minus)
  next
    case False
    with 1 show ?thesis by (subst digits.simps) (simp add: digits_not_Nil)
  qed
qed

lemma str_int_inj: "str_int i = str_int j \<Longrightarrow> i = j"
proof -
  assume e: "str_int i = str_int j"
  have neg: False if "str_int x = str_int y" "x < 0" "\<not> y < 0" for x y
  proof -
    from that have "CHR ''-'' # digits (nat (- x)) = digits (nat y)" by (simp add: str_int_def)
    then have "hd (digits (nat y)) = CHR ''-''" by (metis list.sel(1))
    with digits_hd show False by blast
  qed
  show ?thesis
  proof (cases "i < 0")
    case True
    show ?thesis
    proof (cases "j < 0")
      case j: True
      with True e have "digits (nat (- i)) = digits (nat (- j))" by (simp add: str_int_def)
      then have "nat (- i) = nat (- j)" by (rule digits_inj)
      with True j show ?thesis by simp
    next
      case False with True e neg show ?thesis by blast
    qed
  next
    case False
    show ?thesis
    proof (cases "j < 0")
      case True with False e neg[of j i] show ?thesis by simp
    next
      case j: False
      with False e have "digits (nat i) = digits (nat j)" by (simp add: str_int_def)
      then have "nat i = nat j" by (rule digits_inj)
      with False j show ?thesis by simp
    qed
  qed
qed

section \<open>Identity Reindexer\<close>

lemma column_length: "column t c = Inr vs \<Longrightarrow> length vs = length (rows t)"
  by (auto simp: column_def split: option.splits)

lemma cell_strings_map: "\<exists>g. cell_strings ids = map g ids"
  unfolding cell_strings_def
  by (cases "\<not> list_ex is_str ids \<and> list_ex (\<lambda>x. x = NaN \<or> is_float x) ids") auto

lemma cell_strings_length [simp]: "length (cell_strings ids) = length ids"
  by (simp add: cell_strings_def)

lemma is_int_no_NaN: "list_all is_int ids \<Longrightarrow> \<not> list_ex (\<lambda>x. x = NaN \<or> is_float x) ids"
  by (induction ids) (auto elim: is_int.elims)

lemma cell_strings_int:
  assumes "list_all is_int ids"
  shows "cell_strings ids = map (\<lambda>x. str_int (int_of x)) ids"
proof -
  have "py_str x = str_int (int_of x)" if "x \<in> set ids" for x
    using assms that by (cases x) (auto simp: list_all_iff)
  then show ?thesis
    using is_int_no_NaN[OF assms] by (simp add: cell_strings_def)
qed

lemma str_int_of_inj: "is_int x \<Longrightarrow> is_int y \<Longrightarrow> str_int (int_of x) = str_int (int_of y) \<Longrightarrow> x = y"
  by (cases x; cases y) (auto dest: str_int_inj)

lemma reindex_office_Inr:
  assumes "column t ''employee_office_id'' = Inr ids"
  shows "reindex_office p t =
           Inr \<lparr>columns = columns t,
                 rows = zip (map (\<lambda>s. p @ s) (cell_strings ids)) (map snd (rows t))\<rparr>"
  using assms by (simp add: reindex_office_def)

lemma index_zip: "length ks = length rs \<Longrightarrow> index \<lparr>columns = cs, rows = zip ks rs\<rparr> = ks"
  by (simp add: index_def)

lemma reindex_office_result:
  assumes ids: "column t ''employee_office_id'' = Inr ids"
  shows "\<exists>t'. reindex_office p t = Inr t'
           \<and> columns t' = columns t
           \<and> map snd (rows t') = map snd (rows t)
           \<and> length (rows t') = length (rows t)
           \<and> index t' = map (\<lambda>s. p @ s) (cell_strings ids)"
proof -
  let ?ks = "map (\<lambda>s. p @ s) (cell_strings ids)"
  let ?t' = "\<lparr>columns = columns t, rows = zip ?ks (map snd (rows t))\<rparr>"
  have len: "length ?ks = length (map snd (rows t))"
    using column_length[OF ids] by simp
  have i: "index ?t' = ?ks" using len by (rule index_zip)
  have "map snd (rows ?t') = map snd (rows t)" using len by simp
  moreover have "length (rows ?t') = length (rows t)" using len by simp
  ultimately show ?thesis
    using reindex_office_Inr[OF ids, of p] i by (intro exI[of _ ?t']) simp
qed

lemma set_index_Inr:
  assumes "column t c = Inr ks"
  shows "\<exists>t'. set_index c t = Inr t' \<and> index t' = ks"
  using assms column_length[OF assms] by (simp add: set_index_def index_def)

lemma reindex_dataframes_result:
  assumes ia: "column a ''employee_office_id'' = Inr ia"
    and ib: "column b ''employee_office_id'' = Inr ib"
    and ih: "column h ''employee_id'' = Inr ih"
  shows "\<exists>a' b' h'. reindex_dataframes (a, b, h) = Inr (a', b', h')
           \<and> columns a' = columns a \<and> map snd (rows a') = map snd (rows a)
           \<and> length (rows a') = length (rows a)
           \<and> index a' = map (\<lambda>s. ''A'' @ s) (cell_strings ia)
           \<and> columns b' = columns b \<and> map snd (rows b') = map snd (rows b)
           \<and> length (rows b') = length (rows b)
           \<and> index b' = map (\<lambda>s. ''B'' @ s) (cell_strings ib)
           \<and> index h' = ih"
proof -
  from reindex_office_result[OF ia, of "''A''"] obtain a' where
    a': "reindex_office ''A'' a = Inr a'" "columns a' = columns a"
      "map snd (rows a') = map snd (rows a)" "length (rows a') = length (rows a)"
      "index a' = map (\<lambda>s. ''A'' @ s) (cell_strings ia)"
    by blast
  from reindex_office_result[OF ib, of "''B''"] obtain b' where
    b': "reindex_office ''B'' b = Inr b'" "columns b' = columns b"
      "map snd (rows b') = map snd (rows b)" "length (rows b') = length (rows b)"
      "index b' = map (\<lambda>s. ''B'' @ s) (cell_strings ib)"
    by blast
  from set_index_Inr[OF ih] obtain h' where
    h': "set_index ''employee_id'' h = Inr h'" "index h' = ih" by blast
  have "reindex_dataframes (a, b, h) = Inr (a', b', h')"
    by (simp add: reindex_dataframes_def a'(1) b'(1) h'(1))
  with a' b' h' show ?thesis by blast
qed

lemma prefixed_int_keys:
  assumes num: "list_all is_int ids" and uniq: "distinct ids"
  shows "map (\<lambda>s. p @ s) (cell_strings ids) = map (\<lambda>x. p @ str_int (int_of x)) ids"
    and "distinct (map (\<lambda>x. p @ str_int (int_of x)) ids)"
proof -
  show "map (\<lambda>s. p @ s) (cell_strings ids) = map (\<lambda>x. p @ str_int (int_of x)) ids"
    by (simp add: cell_strings_int[OF num])
  have "inj_on (\<lambda>x. p @ str_int (int_of x)) (set ids)"
    using num by (auto simp: inj_on_def list_all_iff dest: str_int_of_inj)
  with uniq show "distinct (map (\<lambda>x. p @ str_int (int_of x)) ids)"
    by (simp add: distinct_map)
qed

lemmas eval_defs = reindex_dataframes_def reindex_office_def set_index_def select_cells_def
  cell_strings_def column_def str_int_def digits.simps digit_char_def

lemma reindex_example:
  "reindex_dataframes (office_a, office_b, hr) = Inr (office_a_keyed, office_b_keyed, hr_keyed)"
  by (simp add: eval_defs office_a_def office_b_def hr_def office_a_keyed_def office_b_keyed_def hr_keyed_def)

lemma reindex_example_empty:
  "reindex_dataframes (office_a, office_b, hr_empty) = Inr (office_a_keyed, office_b_keyed, hr_empty_keyed)"
  by (simp add: eval_defs office_a_def office_b_def hr_empty_def office_a_keyed_def office_b_keyed_def hr_empty_keyed_def)

lemma example_ids:
  "column office_a ''employee_office_id'' = Inr [IntV 10, IntV 2, IntV 1]"
  "column office_b ''employee_office_id'' = Inr [IntV 2, IntV 5]"
  "column hr ''employee_id'' = Inr [StrV ''B5'', StrV ''A1'', StrV ''A3'', StrV ''A10'', StrV ''B9'']"
  by (simp_all add: office_a_def office_b_def hr_def column_def)

text \<open>
  C7. When the three id columns exist, \<open>reindex_dataframes\<close> returns the three re-keyed tables.
  An office table whose \<open>employee_office_id\<close> column holds integers without repetition comes
  back with the same columns and the same rows in the same order, as many labels as rows, each
  label the office's letter (\<open>A\<close> for office A, \<open>B\<close> for office B) followed by the decimal
  string of the row's raw id, and no label twice.
\<close>

theorem reindexed_office_keys:
  assumes ia: "column a ''employee_office_id'' = Inr ia"
    and ib: "column b ''employee_office_id'' = Inr ib"
    and ih: "column h ''employee_id'' = Inr ih"
  shows "\<exists>a' b' h'. reindex_dataframes (a, b, h) = Inr (a', b', h')
           \<and> (list_all is_int ia \<and> distinct ia \<longrightarrow>
                columns a' = columns a \<and> map snd (rows a') = map snd (rows a)
                \<and> length (rows a') = length (rows a)
                \<and> index a' = map (\<lambda>x. ''A'' @ str_int (int_of x)) ia
                \<and> distinct (index a'))
           \<and> (list_all is_int ib \<and> distinct ib \<longrightarrow>
                columns b' = columns b \<and> map snd (rows b') = map snd (rows b)
                \<and> length (rows b') = length (rows b)
                \<and> index b' = map (\<lambda>x. ''B'' @ str_int (int_of x)) ib
                \<and> distinct (index b'))"
proof -
  from reindex_dataframes_result[OF ia ib ih] obtain a' b' h' where
    r: "reindex_dataframes (a, b, h) = Inr (a', b', h')"
    and a': "columns a' = columns a" "map snd (rows a') = map snd (rows a)"
      "length (rows a') = length (rows a)" "index a' = map (\<lambda>s. ''A'' @ s) (cell_strings ia)"
    and b': "columns b' = columns b" "map snd (rows b') = map snd (rows b)"
      "length (rows b') = length (rows b)" "index b' = map (\<lambda>s. ''B'' @ s) (cell_strings ib)"
    by blast
  have ka: "index a' = map (\<lambda>x. ''A'' @ str_int (int_of x)) ia \<and> distinct (index a')"
    if "list_all is_int ia \<and> distinct ia"
    using that prefixed_int_keys[of ia "''A''"] a'(4) by simp
  have kb: "index b' = map (\<lambda>x. ''B'' @ str_int (int_of x)) ib \<and> distinct (index b')"
    if "list_all is_int ib \<and> distinct ib"
    using that prefixed_int_keys[of ib "''B''"] b'(4) by simp
  from r a' b' ka kb show ?thesis by blast
qed

theorem reindexed_office_keys_witness:
  "column office_a ''employee_office_id'' = Inr [IntV 10, IntV 2, IntV 1]
   \<and> column office_b ''employee_office_id'' = Inr [IntV 2, IntV 5]
   \<and> column hr ''employee_id'' = Inr [StrV ''B5'', StrV ''A1'', StrV ''A3'', StrV ''A10'', StrV ''B9'']
   \<and> list_all is_int [IntV 10, IntV 2, IntV 1] \<and> distinct [IntV 10, IntV 2, IntV 1]
   \<and> list_all is_int [IntV 2, IntV 5] \<and> distinct [IntV 2, IntV 5]
   \<and> reindex_dataframes (office_a, office_b, hr) = Inr (office_a_keyed, office_b_keyed, hr_keyed)
   \<and> index office_a_keyed = [''A10'', ''A2'', ''A1''] \<and> distinct (index office_a_keyed)
   \<and> map snd (rows office_a_keyed) = map snd (rows office_a)
   \<and> index office_b_keyed = [''B2'', ''B5''] \<and> distinct (index office_b_keyed)
   \<and> map snd (rows office_b_keyed) = map snd (rows office_b)"
proof -
  have na: "list_all is_int [IntV 10, IntV 2, IntV 1] \<and> distinct [IntV 10, IntV 2, IntV 1]" by simp
  have nb: "list_all is_int [IntV 2, IntV 5] \<and> distinct [IntV 2, IntV 5]" by simp
  from reindexed_office_keys[OF example_ids] na nb
  have "distinct (index office_a_keyed) \<and> map snd (rows office_a_keyed) = map snd (rows office_a)
      \<and> distinct (index office_b_keyed) \<and> map snd (rows office_b_keyed) = map snd (rows office_b)"
    by (auto simp: reindex_example)
  moreover have "index office_a_keyed = [''A10'', ''A2'', ''A1'']"
    "index office_b_keyed = [''B2'', ''B5'']"
    by (simp_all add: index_def office_a_keyed_def office_b_keyed_def)
  ultimately show ?thesis using example_ids na nb reindex_example by simp
qed

text \<open>
  C4, as the code has it. The reindexer never compares labels. Whenever the three id columns
  exist it returns the re-keyed tables, one label per row: rows of an office table with equal
  raw ids get equal labels, the HR labels are the \<open>employee_id\<close> cells themselves, and an id
  that occurs twice gives a label that occurs twice.
\<close>

theorem reindex_keeps_duplicates:
  assumes ia: "column a ''employee_office_id'' = Inr ia"
    and ib: "column b ''employee_office_id'' = Inr ib"
    and ih: "column h ''employee_id'' = Inr ih"
  shows "\<exists>a' b' h'. reindex_dataframes (a, b, h) = Inr (a', b', h')
           \<and> length (index a') = length ia \<and> length (index b') = length ib
           \<and> index h' = ih
           \<and> (\<forall>i<length ia. \<forall>j<length ia. ia ! i = ia ! j \<longrightarrow> index a' ! i = index a' ! j)
           \<and> (\<forall>i<length ib. \<forall>j<length ib. ib ! i = ib ! j \<longrightarrow> index b' ! i = index b' ! j)
           \<and> (\<not> distinct ia \<longrightarrow> \<not> distinct (index a'))
           \<and> (\<not> distinct ib \<longrightarrow> \<not> distinct (index b'))
           \<and> (\<not> distinct ih \<longrightarrow> \<not> distinct (index h'))"
proof -
  from reindex_dataframes_result[OF ia ib ih] obtain a' b' h' where
    r: "reindex_dataframes (a, b, h) = Inr (a', b', h')"
    and xa: "index a' = map (\<lambda>s. ''A'' @ s) (cell_strings ia)"
    and xb: "index b' = map (\<lambda>s. ''B'' @ s) (cell_strings ib)"
    and xh: "index h' = ih"
    by blast
  from cell_strings_map[of ia] obtain ga where ga: "cell_strings ia = map ga ia" by blast
  from cell_strings_map[of ib] obtain gb where gb: "cell_strings ib = map gb ib" by blast
  have ma: "index a' = map (\<lambda>x. ''A'' @ ga x) ia" by (simp add: xa ga)
  have mb: "index b' = map (\<lambda>x. ''B'' @ gb x) ib" by (simp add: xb gb)
  have la: "length (index a') = length ia" and lb: "length (index b') = length ib"
    by (simp_all add: ma mb)
  have ea: "\<forall>i<length ia. \<forall>j<length ia. ia ! i = ia ! j \<longrightarrow> index a' ! i = index a' ! j"
    by (simp add: ma)
  have eb: "\<forall>i<length ib. \<forall>j<length ib. ib ! i = ib ! j \<longrightarrow> index b' ! i = index b' ! j"
    by (simp add: mb)
  have da: "\<not> distinct ia \<longrightarrow> \<not> distinct (index a')"
    unfolding ma by (auto simp: distinct_map)
  have db: "\<not> distinct ib \<longrightarrow> \<not> distinct (index b')"
    unfolding mb by (auto simp: distinct_map)
  from r la lb xh ea eb da db show ?thesis by blast
qed

lemma office_dup_ids: "column office_dup ''employee_office_id'' = Inr [IntV 1, IntV 1]"
  by (simp add: office_dup_def column_def)

lemma office_example_ids:
  "column office_example ''employee_office_id'' = Inr [IntV 12, IntV 7, IntV 120]"
  by (simp add: office_example_def column_def)

lemma hr_dup_ids: "column hr_dup ''employee_id'' = Inr [StrV ''A1'', StrV ''A1'']"
  by (simp add: hr_dup_def column_def)

text \<open>
  Two rows of office A with the raw id 1, and two rows of the HR table with the id \<open>A1\<close>: the
  call returns the three re-keyed tables, the label \<open>A1\<close> twice in two of them.
\<close>

theorem reindex_duplicate_ids_counterexample:
  "reindex_dataframes (office_dup, office_example, hr_dup) =
     Inr (\<lparr>columns = [''employee_office_id'', ''number_project''],
            rows = [(''A1'', [IntV 1, IntV 3]), (''A1'', [IntV 1, IntV 5])]\<rparr>,
          \<lparr>columns = [''employee_office_id'', ''number_project''],
            rows = [(''B12'', [IntV 12, IntV 3]), (''B7'', [IntV 7, IntV 5]),
                    (''B120'', [IntV 120, IntV 2])]\<rparr>,
          \<lparr>columns = [''salary''],
            rows = [(StrV ''A1'', [StrV ''low'']), (StrV ''A1'', [StrV ''high''])]\<rparr>)"
  by (simp add: eval_defs office_dup_def office_example_def hr_dup_def)

theorem reindex_keeps_duplicates_witness:
  "column office_dup ''employee_office_id'' = Inr [IntV 1, IntV 1]
   \<and> column office_example ''employee_office_id'' = Inr [IntV 12, IntV 7, IntV 120]
   \<and> column hr_dup ''employee_id'' = Inr [StrV ''A1'', StrV ''A1'']
   \<and> (\<exists>a' b' h'. reindex_dataframes (office_dup, office_example, hr_dup) = Inr (a', b', h')
          \<and> index a' ! 0 = index a' ! 1 \<and> length (index a') = 2 \<and> \<not> distinct (index a')
          \<and> index h' = [StrV ''A1'', StrV ''A1''])"
proof -
  have nd: "\<not> distinct [IntV 1, IntV 1]" by simp
  from reindex_keeps_duplicates[OF office_dup_ids office_example_ids hr_dup_ids]
  obtain a' b' h' where r: "reindex_dataframes (office_dup, office_example, hr_dup) = Inr (a', b', h')"
    and l: "length (index a') = length [IntV 1, IntV (1::int)]"
    and e: "\<forall>i<length [IntV 1, IntV (1::int)]. \<forall>j<length [IntV 1, IntV (1::int)].
              [IntV 1, IntV 1] ! i = [IntV 1, IntV (1::int)] ! j \<longrightarrow> index a' ! i = index a' ! j"
    and d: "\<not> distinct [IntV 1, IntV (1::int)] \<longrightarrow> \<not> distinct (index a')"
    and h: "index h' = [StrV ''A1'', StrV ''A1'']"
    by blast
  from e have "index a' ! 0 = index a' ! 1" by simp
  moreover from l have "length (index a') = 2" by simp
  moreover from d nd have "\<not> distinct (index a')" by blast
  ultimately show ?thesis
    using r h office_dup_ids office_example_ids hr_dup_ids by blast
qed

section \<open>Dataset Unifier\<close>

lemma map_insort_key: "map f (insort_key f x xs) = insort (f x) (map f xs)"
  by (induction xs) auto

lemma map_sort_key: "map f (sort_key f xs) = sort (map f xs)"
  by (induction xs) (auto simp: map_insort_key)

lemma index_concat2: "index (concat2 a b) = index a @ index b"
  by (simp add: concat2_def index_def Let_def split_def comp_def)

lemma index_drop_columns: "index (drop_columns ds t) = index t"
  by (simp add: drop_columns_def index_def Let_def split_def comp_def)

lemma index_sort_index: "index (sort_index t) = sort (index t)"
  by (simp add: sort_index_def index_def map_sort_key)

lemma index_merge_inner:
  "index (merge_inner l r) =
     concat (map (\<lambda>k. replicate (length (filter (\<lambda>k'. k' = StrV k) (index r))) k) (index l))"
proof -
  have "length (filter (\<lambda>k'. k' = StrV k) (map fst rs)) = length (filter (\<lambda>p. fst p = StrV k) rs)"
    for k and rs :: "(val \<times> val list) list"
    by (induction rs) auto
  then show ?thesis
    by (simp add: merge_inner_def index_def map_concat comp_def split_def map_replicate_const)
qed

lemma distinct_count_filter:
  "distinct xs \<Longrightarrow> length (filter (\<lambda>y. y = x) xs) = (if x \<in> set xs then 1 else 0)"
  by (induction xs) auto

lemma concat_replicate_filter:
  "concat (map (\<lambda>k. replicate (if P k then 1 else 0) k) ks) = filter P ks"
  by (induction ks) auto

lemma index_merge_inner_distinct:
  assumes "distinct (index r)"
  shows "index (merge_inner l r) = filter (\<lambda>k. StrV k \<in> set (index r)) (index l)"
  by (simp add: index_merge_inner distinct_count_filter[OF assms] concat_replicate_filter)

lemma index_unified:
  "generate_unified_dataset a b h = Inr u \<Longrightarrow> index u = sort (index (merge_inner (concat2 a b) h))"
  by (auto simp: generate_unified_dataset_def index_sort_index index_drop_columns)

lemma set_index_merge_inner:
  "set (index (merge_inner l r)) = {k \<in> set (index l). StrV k \<in> set (index r)}"
  by (auto simp: index_merge_inner filter_empty_conv)


lemma reindex_office_index:
  "reindex_office p t = Inr t' \<Longrightarrow> \<forall>k\<in>set (index t'). \<exists>s. k = p @ s"
  by (auto simp: reindex_office_def index_def split: sum.splits dest!: set_zip_leftD)

lemma reindex_dataframes_Inr:
  "reindex_dataframes (a, b, h) = Inr (a', b', h') \<Longrightarrow>
     reindex_office ''A'' a = Inr a' \<and> reindex_office ''B'' b = Inr b'
     \<and> set_index ''employee_id'' h = Inr h'"
  by (auto simp: reindex_dataframes_def split: sum.splits)

lemma reindexed_office_prefix:
  assumes "reindex_dataframes (a, b, h) = Inr (a', b', h')"
  shows "\<forall>k\<in>set (index a'). \<exists>s. k = CHR ''A'' # s"
    and "\<forall>k\<in>set (index b'). \<exists>s. k = CHR ''B'' # s"
  using reindex_dataframes_Inr[OF assms] reindex_office_index[of "''A''" a a']
    reindex_office_index[of "''B''" b b'] by auto

lemma columns_drop_columns:
  "set (columns (drop_columns ds t)) = set (columns t) - set ds"
  by (auto simp: drop_columns_def Let_def)

lemma columns_unified:
  "generate_unified_dataset a b h = Inr u \<Longrightarrow>
     ''employee_office_id'' \<notin> set (columns u) \<and> ''employee_id'' \<notin> set (columns u)"
proof -
  assume "generate_unified_dataset a b h = Inr u"
  then have "set (columns u) = set (columns (merge_inner (concat2 a b) h)) - set columns_to_drop"
    by (auto simp: generate_unified_dataset_def sort_index_def columns_drop_columns)
  then show ?thesis by (simp add: columns_to_drop_def)
qed

lemmas unify_defs = generate_unified_dataset_def sort_index_def drop_columns_def merge_inner_def
  concat2_def align_def select_cells_def columns_to_drop_def Let_def

lemma unify_example:
  "generate_unified_dataset office_a_keyed office_b_keyed hr_keyed = Inr unified_example"
  by (simp add: unify_defs office_a_keyed_def office_b_keyed_def hr_keyed_def unified_example_def)

lemma unify_example_empty:
  "generate_unified_dataset office_a_keyed office_b_keyed hr_empty_keyed =
     Inr \<lparr>columns = [''number_project'', ''average_monthly_hours'', ''salary'', ''left''], rows = []\<rparr>"
  by (simp add: unify_defs office_a_keyed_def office_b_keyed_def hr_empty_keyed_def)

text \<open>
  C1. When the labels of each re-keyed table are unique within that table, the unified table
  has exactly one row per label that occurs both among the office labels (A followed by B) and
  among the HR labels: its labels are unique, they are exactly that intersection, the row count
  is the cardinality of the intersection, and it is at most the number of office rows and at
  most the number of HR rows.
\<close>

theorem unified_rows_are_key_intersection:
  assumes re: "reindex_dataframes (a, b, h) = Inr (a', b', h')"
    and da: "distinct (index a')" and db: "distinct (index b')" and dh: "distinct (index h')"
  shows "\<exists>u. generate_unified_dataset a' b' h' = Inr u
           \<and> distinct (index u)
           \<and> set (index u) = {k \<in> set (index a' @ index b'). StrV k \<in> set (index h')}
           \<and> length (rows u) = card {k \<in> set (index a' @ index b'). StrV k \<in> set (index h')}
           \<and> length (rows u) \<le> min (length (rows a') + length (rows b')) (length (rows h'))"
proof -
  let ?K = "{k \<in> set (index a' @ index b'). StrV k \<in> set (index h')}"
  obtain u where u: "generate_unified_dataset a' b' h' = Inr u"
    by (simp add: generate_unified_dataset_def)
  have disj: "set (index a') \<inter> set (index b') = {}"
    using reindexed_office_prefix[OF re] by fastforce
  with da db have dab: "distinct (index a' @ index b')" by simp
  have iu: "index u = sort (filter (\<lambda>k. StrV k \<in> set (index h')) (index a' @ index b'))"
    using index_unified[OF u] by (simp add: index_merge_inner_distinct[OF dh] index_concat2)
  have d: "distinct (index u)" unfolding iu using dab by (simp add: distinct_filter del: filter_append)
  have s: "set (index u) = ?K" unfolding iu by auto
  have l: "length (rows u) = length (index u)" by (simp add: index_def)
  have c: "length (rows u) = card ?K" using distinct_card[OF d] s l by simp
  have le1: "length (rows u) \<le> length (rows a') + length (rows b')"
    unfolding l iu by (simp add: index_def) (metis add_mono length_filter_le)
  have "StrV ` ?K \<subseteq> set (index h')" by auto
  then have "card (StrV ` ?K) \<le> card (set (index h'))" by (intro card_mono) auto
  moreover have "card (StrV ` ?K) = card ?K" by (intro card_image) (simp add: inj_on_def)
  moreover have "card (set (index h')) \<le> length (rows h')"
    using card_length[of "index h'"] by (simp add: index_def)
  ultimately have le2: "length (rows u) \<le> length (rows h')" using c by simp
  from u d s c le1 le2 show ?thesis by simp
qed

theorem unified_rows_are_key_intersection_witness:
  "reindex_dataframes (office_a, office_b, hr) = Inr (office_a_keyed, office_b_keyed, hr_keyed)
   \<and> distinct (index office_a_keyed) \<and> distinct (index office_b_keyed)
   \<and> distinct (index hr_keyed)
   \<and> generate_unified_dataset office_a_keyed office_b_keyed hr_keyed = Inr unified_example
   \<and> index unified_example = [''A1'', ''A10'', ''B5'']
   \<and> {k \<in> set (index office_a_keyed @ index office_b_keyed). StrV k \<in> set (index hr_keyed)}
       = {''A1'', ''A10'', ''B5''}
   \<and> length (rows unified_example) = 3
   \<and> length (rows unified_example)
       \<le> min (length (rows office_a_keyed) + length (rows office_b_keyed)) (length (rows hr_keyed))"
proof -
  have da: "distinct (index office_a_keyed)" by (simp add: index_def office_a_keyed_def)
  have db: "distinct (index office_b_keyed)" by (simp add: index_def office_b_keyed_def)
  have dh: "distinct (index hr_keyed)" by (simp add: index_def hr_keyed_def)
  from unified_rows_are_key_intersection[OF reindex_example da db dh]
  have "set (index unified_example)
          = {k \<in> set (index office_a_keyed @ index office_b_keyed). StrV k \<in> set (index hr_keyed)}"
    and "length (rows unified_example)
          \<le> min (length (rows office_a_keyed) + length (rows office_b_keyed)) (length (rows hr_keyed))"
    by (auto simp: unify_example)
  moreover have "index unified_example = [''A1'', ''A10'', ''B5'']"
    by (simp add: index_def unified_example_def)
  moreover have "length (rows unified_example) = 3" by (simp add: unified_example_def)
  ultimately show ?thesis using reindex_example unify_example da db dh by auto
qed

text \<open>
  C8. Whatever the re-keyed tables hold, the unified table built from them has only labels that
  start with \<open>A\<close> or \<open>B\<close>, its labels are in ascending order of the character-by-character
  order of strings, in which \<open>A1\<close> is before \<open>A10\<close> and \<open>A10\<close> before \<open>A2\<close>, and neither
  \<open>employee_office_id\<close> nor \<open>employee_id\<close> is one of its columns.
\<close>

theorem unified_invariants:
  assumes re: "reindex_dataframes (a, b, h) = Inr (a', b', h')"
  shows "\<exists>u. generate_unified_dataset a' b' h' = Inr u
           \<and> (\<forall>k\<in>set (index u). \<exists>s. k = CHR ''A'' # s \<or> k = CHR ''B'' # s)
           \<and> sorted (index u)
           \<and> (''A1'' :: string) < ''A10'' \<and> (''A10'' :: string) < ''A2''
           \<and> ''employee_office_id'' \<notin> set (columns u)
           \<and> ''employee_id'' \<notin> set (columns u)"
proof -
  obtain u where u: "generate_unified_dataset a' b' h' = Inr u"
    by (simp add: generate_unified_dataset_def)
  have "set (index u) \<subseteq> set (index a') \<union> set (index b')"
    using index_unified[OF u] by (auto simp: set_index_merge_inner index_concat2)
  with reindexed_office_prefix[OF re]
  have p: "\<forall>k\<in>set (index u). \<exists>s. k = CHR ''A'' # s \<or> k = CHR ''B'' # s" by blast
  have s: "sorted (index u)" using index_unified[OF u] by simp
  from u p s columns_unified[OF u] show ?thesis by simp
qed

theorem unified_invariants_witness:
  "reindex_dataframes (office_a, office_b, hr) = Inr (office_a_keyed, office_b_keyed, hr_keyed)
   \<and> generate_unified_dataset office_a_keyed office_b_keyed hr_keyed = Inr unified_example
   \<and> index unified_example = [''A1'', ''A10'', ''B5'']
   \<and> map hd (index unified_example) = [CHR ''A'', CHR ''A'', CHR ''B'']
   \<and> sorted (index unified_example)
   \<and> ''employee_office_id'' \<notin> set (columns unified_example)
   \<and> ''employee_id'' \<notin> set (columns unified_example)"
proof -
  have "index unified_example = [''A1'', ''A10'', ''B5'']"
    by (simp add: index_def unified_example_def)
  with unified_invariants[OF reindex_example] reindex_example unify_example
  show ?thesis by (simp add: unify_example)
qed

text \<open>
  C9, as the code has it. The unifier has no test for empty tables and raises nothing of its
  own: every triple of re-keyed tables gives a unified table. It has no rows when the HR table
  has none or when both office tables have none; when one office table has no rows it holds
  the rows of the other office that the HR table knows.
\<close>

theorem unify_accepts_empty_tables:
  "\<exists>u. generate_unified_dataset a b h = Inr u
       \<and> (rows h = [] \<or> (rows a = [] \<and> rows b = []) \<longrightarrow> rows u = [])
       \<and> (rows a = [] \<longrightarrow> set (index u) = {k \<in> set (index b). StrV k \<in> set (index h)})
       \<and> (rows b = [] \<longrightarrow> set (index u) = {k \<in> set (index a). StrV k \<in> set (index h)})"
proof -
  obtain u where u: "generate_unified_dataset a b h = Inr u"
    by (simp add: generate_unified_dataset_def)
  have s: "set (index u) = {k \<in> set (index a) \<union> set (index b). StrV k \<in> set (index h)}"
    using index_unified[OF u] by (auto simp: set_index_merge_inner index_concat2)
  have e: "rows u = []" if "rows h = [] \<or> (rows a = [] \<and> rows b = [])"
  proof -
    from that s have "set (index u) = {}" by (auto simp: index_def)
    then show ?thesis by (simp add: index_def)
  qed
  have ea: "set (index u) = {k \<in> set (index b). StrV k \<in> set (index h)}" if "rows a = []"
    using s that by (auto simp: index_def)
  have eb: "set (index u) = {k \<in> set (index a). StrV k \<in> set (index h)}" if "rows b = []"
    using s that by (auto simp: index_def)
  from u e ea eb show ?thesis by blast
qed

text \<open>An HR table without rows: the unifier returns the table with four columns and no rows.\<close>

theorem unify_empty_hr_counterexample:
  "reindex_dataframes (office_a, office_b, hr_empty)
     = Inr (office_a_keyed, office_b_keyed, hr_empty_keyed)
   \<and> rows hr_empty_keyed = []
   \<and> generate_unified_dataset office_a_keyed office_b_keyed hr_empty_keyed
     = Inr \<lparr>columns = [''number_project'', ''average_monthly_hours'', ''salary'', ''left''],
            rows = []\<rparr>"
  using reindex_example_empty unify_example_empty by (simp add: hr_empty_keyed_def)

theorem unify_accepts_empty_tables_witness:
  "rows hr_empty_keyed = [] \<and> rows office_empty_keyed = []
   \<and> (\<exists>u. generate_unified_dataset office_a_keyed office_b_keyed hr_empty_keyed = Inr u
          \<and> rows u = [])
   \<and> (\<exists>u. generate_unified_dataset office_empty_keyed office_b_keyed hr_keyed = Inr u
          \<and> set (index u) = {''B5''})
   \<and> (\<exists>u. generate_unified_dataset office_a_keyed office_empty_keyed hr_keyed = Inr u
          \<and> set (index u) = {''A1'', ''A10''})"
proof -
  have e: "rows hr_empty_keyed = []" by (simp add: hr_empty_keyed_def)
  have o: "rows office_empty_keyed = []" by (simp add: office_empty_keyed_def)
  have kb: "{k \<in> set (index office_b_keyed). StrV k \<in> set (index hr_keyed)} = {''B5''}"
    by (auto simp: index_def office_b_keyed_def hr_keyed_def)
  have ka: "{k \<in> set (index office_a_keyed). StrV k \<in> set (index hr_keyed)} = {''A1'', ''A10''}"
    by (auto simp: index_def office_a_keyed_def hr_keyed_def)
  from unify_accepts_empty_tables[of office_a_keyed office_b_keyed hr_empty_keyed] e
  have 1: "\<exists>u. generate_unified_dataset office_a_keyed office_b_keyed hr_empty_keyed = Inr u
          \<and> rows u = []" by auto
  from unify_accepts_empty_tables[of office_empty_keyed office_b_keyed hr_keyed] o kb
  have 2: "\<exists>u. generate_unified_dataset office_empty_keyed office_b_keyed hr_keyed = Inr u
          \<and> set (index u) = {''B5''}" by auto
  from unify_accepts_empty_tables[of office_a_keyed office_empty_keyed hr_keyed] o ka
  have 3: "\<exists>u. generate_unified_dataset office_a_keyed office_empty_keyed hr_keyed = Inr u
          \<and> set (index u) = {''A1'', ''A10''}" by auto
  from e o 1 2 3 show ?thesis by blast
qed

section \<open>Top 10 by hours\<close>

lemma insort_key_map: "insort_key f (g x) (map g xs) = map g (insort_key (\<lambda>a. f (g a)) x xs)"
  by (induction xs) auto

lemma sort_key_map: "sort_key f (map g xs) = map g (sort_key (\<lambda>a. f (g a)) xs)"
  by (induction xs) (auto simp: insort_key_map)

lemma insort_key_before:
  assumes "sorted_wrt (key_before k) ys" and "\<forall>y\<in>set ys. x < y"
  shows "sorted_wrt (key_before k) (insort_key k x ys)"
  using assms
proof (induction ys)
  case Nil
  then show ?case by simp
next
  case (Cons y ys)
  show ?case
  proof (cases "k x \<le> k y")
    case True
    have "key_before k x z" if "z \<in> set (y # ys)" for z
    proof -
      have "k y \<le> k z" using that Cons.prems(1) by (auto simp: key_before_def)
      with True have "k x \<le> k z" by simp
      moreover have "x < z" using that Cons.prems(2) by auto
      ultimately show ?thesis by (auto simp: key_before_def)
    qed
    with True Cons.prems(1) show ?thesis by simp
  next
    case False
    then have "key_before k y x" by (simp add: key_before_def)
    moreover have "sorted_wrt (key_before k) (insort_key k x ys)"
      using Cons by simp
    ultimately show ?thesis using False Cons.prems(1) by (auto simp: set_insort_key)
  qed
qed

lemma sort_key_before:
  "sorted_wrt (<) xs \<Longrightarrow> sorted_wrt (key_before k) (sort_key k xs)"
proof (induction xs)
  case Nil
  then show ?case by simp
next
  case (Cons x xs)
  then show ?case by (auto intro!: insort_key_before)
qed

lemma positions_partition:
  "set (present_positions hs) \<union> set (absent_positions hs) = {..<length hs}"
  "set (present_positions hs) \<inter> set (absent_positions hs) = {}"
  by (auto simp: present_positions_def absent_positions_def)

lemma positions_sorted:
  "sorted_wrt (<) (present_positions hs)" "sorted_wrt (<) (absent_positions hs)"
  by (simp_all add: present_positions_def absent_positions_def sorted_wrt_filter sorted_wrt_upt)

lemma positions_distinct [simp]:
  "distinct (present_positions hs)" "distinct (absent_positions hs)"
  by (simp_all add: present_positions_def absent_positions_def)

lemma present_rank: "i \<in> set (present_positions hs) \<Longrightarrow> hours_rank (hs ! i) = (0, - int_of (hs ! i))"
  by (cases "hs ! i") (auto simp: present_positions_def)

lemma absent_rank: "i \<in> set (absent_positions hs) \<Longrightarrow> hours_rank (hs ! i) = (1, 0)"
  by (auto simp: absent_positions_def)

lemma stable_order_set: "set (stable_order hs) = {..<length hs}"
  using positions_partition(1)[of hs] by (simp add: stable_order_def)

lemma stable_order_distinct: "distinct (stable_order hs)"
  using positions_partition(2)[of hs] by (simp add: stable_order_def)

lemma stable_order_length: "length (stable_order hs) = length hs"
  using distinct_card[OF stable_order_distinct, of hs] by (simp add: stable_order_set)

lemma stable_order_sorted: "sorted_wrt (ranks_before hs) (stable_order hs)"
proof -
  let ?k = "\<lambda>i. - int_of (hs ! i)"
  let ?p = "sort_key ?k (present_positions hs)"
  have kb: "sorted_wrt (key_before ?k) ?p"
    by (rule sort_key_before) (rule positions_sorted)
  have "sorted_wrt (ranks_before hs) ?p"
  proof (rule sorted_wrt_mono_rel[OF _ kb])
    fix i j assume "i \<in> set ?p" "j \<in> set ?p" "key_before ?k i j"
    then show "ranks_before hs i j"
      by (auto simp: ranks_before_def key_before_def present_rank)
  qed
  moreover have "sorted_wrt (ranks_before hs) (absent_positions hs)"
  proof (rule sorted_wrt_mono_rel[OF _ positions_sorted(2)])
    fix i j assume "i \<in> set (absent_positions hs)" "j \<in> set (absent_positions hs)" "i < j"
    then show "ranks_before hs i j" by (simp add: ranks_before_def absent_rank)
  qed
  moreover have "ranks_before hs i j" if "i \<in> set ?p" "j \<in> set (absent_positions hs)" for i j
    using that by (simp add: ranks_before_def absent_rank present_rank)
  ultimately show ?thesis by (simp add: stable_order_def sorted_wrt_append)
qed


lemma is_argsort_set: "is_argsort perm xs \<Longrightarrow> set perm = {..<length xs}"
proof -
  assume "is_argsort perm xs"
  then have "sort perm = [0..<length xs]" by (simp add: is_argsort_def)
  then have "set (sort perm) = set [0..<length xs]" by simp
  then show ?thesis by (simp add: atLeast0LessThan)
qed

lemma is_argsort_mset: "is_argsort perm xs \<Longrightarrow> mset perm = mset [0..<length xs]"
proof -
  assume "is_argsort perm xs"
  then have "sort perm = [0..<length xs]" by (simp add: is_argsort_def)
  then have "mset (sort perm) = mset [0..<length xs]" by simp
  then show ?thesis by simp
qed

lemma argsort_permutes:
  assumes "is_argsort perm (map g ys)"
  shows "mset (map ((!) ys) perm) = mset ys"
proof -
  have "mset (map ((!) ys) perm) = image_mset ((!) ys) (mset perm)" by simp
  also have "\<dots> = image_mset ((!) ys) (mset [0..<length ys])"
    using is_argsort_mset[OF assms] by simp
  also have "\<dots> = mset (map ((!) ys) [0..<length ys])" by simp
  also have "\<dots> = mset ys" by (simp add: map_nth)
  finally show ?thesis .
qed

lemma argsort_sorted:
  assumes "is_argsort perm (map g ys)"
  shows "sorted (map g (map ((!) ys) perm))"
proof -
  have "map ((!) (map g ys)) perm = map g (map ((!) ys) perm)"
    using is_argsort_set[OF assms] by auto
  with assms show ?thesis by (simp add: is_argsort_def)
qed

lemma library_order_facts:
  assumes srt: "\<And>xs. is_argsort (argsort xs) xs"
  shows "set (library_order argsort hs) = {..<length hs}"
    and "distinct (library_order argsort hs)"
    and "sorted_wrt (ranks_not_after hs) (library_order argsort hs)"
proof -
  let ?rp = "rev (present_positions hs)"
  let ?g = "\<lambda>i. int_of (hs ! i)"
  let ?perm = "argsort (map ?g ?rp)"
  let ?asc = "map ((!) ?rp) ?perm"
  have lo: "library_order argsort hs = rev ?asc @ absent_positions hs"
    by (simp add: library_order_def Let_def)
  have ms: "mset ?asc = mset ?rp" using srt by (rule argsort_permutes)
  then have st: "set ?asc = set (present_positions hs)"
    by (metis mset_eq_setD set_rev)
  have "distinct ?rp" by simp
  with ms have da: "distinct ?asc" by (metis mset_eq_imp_distinct_iff)
  show "set (library_order argsort hs) = {..<length hs}"
    unfolding lo using st positions_partition(1)[of hs] by simp
  show "distinct (library_order argsort hs)"
    unfolding lo using st da positions_partition(2)[of hs] by simp
  have "sorted (map ?g ?asc)" using srt by (rule argsort_sorted)
  then have asc: "sorted_wrt (\<lambda>i j. ?g i \<le> ?g j) ?asc" by (simp only: sorted_map)
  have "sorted_wrt (\<lambda>i j. ranks_not_after hs j i) ?asc"
  proof (rule sorted_wrt_mono_rel[OF _ asc])
    fix i j assume "i \<in> set ?asc" "j \<in> set ?asc" "?g i \<le> ?g j"
    then show "ranks_not_after hs j i"
      unfolding st by (simp add: ranks_not_after_def present_rank)
  qed
  then have p: "sorted_wrt (ranks_not_after hs) (rev ?asc)" by (simp add: sorted_wrt_rev)
  have a: "sorted_wrt (ranks_not_after hs) (absent_positions hs)"
  proof (rule sorted_wrt_mono_rel[OF _ positions_sorted(2)])
    fix i j assume "i \<in> set (absent_positions hs)" "j \<in> set (absent_positions hs)"
    then show "ranks_not_after hs i j" by (simp add: ranks_not_after_def absent_rank)
  qed
  have c: "ranks_not_after hs i j" if "i \<in> set (rev ?asc)" "j \<in> set (absent_positions hs)" for i j
    using that st by (simp add: ranks_not_after_def absent_rank present_rank)
  show "sorted_wrt (ranks_not_after hs) (library_order argsort hs)"
    unfolding lo using p a c by (simp add: sorted_wrt_append)
qed

lemma library_order_length:
  assumes "\<And>xs. is_argsort (argsort xs) xs"
  shows "length (library_order argsort hs) = length hs"
  using distinct_card[OF library_order_facts(2)[OF assms], of hs]
  by (simp add: library_order_facts(1)[OF assms])

lemma zip_by_position:
  "length hs = length rs \<Longrightarrow> zip hs rs = map (\<lambda>i. (hs ! i, rs ! i)) [0..<length hs]"
  by (intro nth_equalityI) simp_all

lemma nlargest_positions:
  assumes hs: "column t c = Inr hs" and ns: "\<not> list_ex is_str hs"
    and srt: "\<And>xs. is_argsort (argsort xs) xs"
  shows "nlargest argsort n c t =
           Inr \<lparr>columns = columns t,
                 rows = map ((!) (rows t))
                          (take n (if length (rows t) \<le> n then library_order argsort hs
                                   else stable_order hs))\<rparr>"
proof -
  let ?rs = "rows t"
  let ?f = "\<lambda>i. (hs ! i, ?rs ! i)"
  let ?pp = "present_positions hs" and ?ap = "absent_positions hs"
  have len: "length hs = length ?rs" using hs by (rule column_length)
  have z: "zip hs ?rs = map ?f [0..<length hs]" using len by (rule zip_by_position)
  have present: "filter (\<lambda>(v, r). v \<noteq> NaN) (zip hs ?rs) = map ?f ?pp"
    unfolding z present_positions_def by (simp add: filter_map comp_def)
  have absent: "filter (\<lambda>(v, r). v = NaN) (zip hs ?rs) = map ?f ?ap"
    unfolding z absent_positions_def by (simp add: filter_map comp_def)
  have snd_f: "map snd (map ?f ys) = map ((!) ?rs) ys" for ys by simp
  have stable: "map snd (sort_key (\<lambda>(v, r). - int_of v) (map ?f ?pp))
                  = map ((!) ?rs) (sort_key (\<lambda>i. - int_of (hs ! i)) ?pp)"
    by (simp add: sort_key_map)
  let ?rp = "rev ?pp"
  let ?perm = "argsort (map (\<lambda>i. int_of (hs ! i)) ?rp)"
  have vals: "map (\<lambda>(v, r). int_of v) (rev (map ?f ?pp)) = map (\<lambda>i. int_of (hs ! i)) ?rp"
    by (simp add: rev_map)
  have "set ?perm = {..<length ?rp}"
    using is_argsort_set[OF srt, of "map (\<lambda>i. int_of (hs ! i)) ?rp"] by simp
  then have "map ((!) (map ?f ?rp)) ?perm = map ?f (map ((!) ?rp) ?perm)" by auto
  then have library: "map snd (rev (map ((!) (rev (map ?f ?pp)))
                        (argsort (map (\<lambda>(v, r). int_of v) (rev (map ?f ?pp))))))
                  = map ((!) ?rs) (rev (map ((!) ?rp) ?perm))"
    unfolding vals by (simp add: rev_map)
  have snd_ap: "map snd (map ?f ?ap) = map ((!) ?rs) ?ap" by simp
  have ns': "list_ex is_str hs = False" using ns by simp
  show ?thesis
  proof (cases "length ?rs \<le> n")
    case True
    have "nlargest argsort n c t =
            Inr \<lparr>columns = columns t,
                  rows = take n (map snd (rev (map ((!) (rev (map ?f ?pp)))
                                   (argsort (map (\<lambda>(v, r). int_of v) (rev (map ?f ?pp))))))
                                 @ map snd (map ?f ?ap))\<rparr>"
      unfolding nlargest_def
      by (simp only: hs sum.case ns' if_False Let_def present absent True if_True)
    also have "\<dots> = Inr \<lparr>columns = columns t,
                  rows = map ((!) ?rs) (take n (library_order argsort hs))\<rparr>"
      unfolding library snd_ap
      by (simp only: library_order_def Let_def map_append[symmetric] take_map)
    finally show ?thesis using True by (simp only: if_True)
  next
    case False
    have "nlargest argsort n c t =
            Inr \<lparr>columns = columns t,
                  rows = take n (map snd (sort_key (\<lambda>(v, r). - int_of v) (map ?f ?pp))
                                 @ map snd (map ?f ?ap))\<rparr>"
      unfolding nlargest_def
      by (simp only: hs sum.case ns' if_False Let_def present absent False)
    also have "\<dots> = Inr \<lparr>columns = columns t,
                  rows = map ((!) ?rs) (take n (stable_order hs))\<rparr>"
      unfolding stable snd_ap
      by (simp only: stable_order_def map_append[symmetric] take_map)
    finally show ?thesis using False by (simp only: if_False)
  qed
qed


lemma exact_cells_not_str: "exact_cells b hs \<Longrightarrow> \<not> list_ex is_str hs"
  by (induction hs) (auto simp: exact_cells_def elim: is_int.elims)

lemma is_int_not_str: "list_all is_int hs \<Longrightarrow> \<not> list_ex is_str hs"
  by (induction hs) (auto elim: is_int.elims)

lemma top_10_by_position:
  assumes hs: "column t ''average_monthly_hours'' = Inr hs" and ns: "\<not> list_ex is_str hs"
    and ds: "column t ''Department'' = Inr ds"
    and srt: "\<And>xs. is_argsort (argsort xs) xs"
  shows "top_10_departments_by_hours argsort t
           = Inr (map ((!) ds) (take 10 (if length (rows t) \<le> 10 then library_order argsort hs
                                          else stable_order hs)))"
proof -
  let ?sel = "take 10 (if length (rows t) \<le> 10 then library_order argsort hs else stable_order hs)"
  from ds obtain j where j: "position ''Department'' (columns t) = Some j"
    and dj: "ds = map (\<lambda>r. snd r ! j) (rows t)"
    by (auto simp: column_def split: option.splits)
  have len: "length hs = length (rows t)" using hs by (rule column_length)
  have "i < length (rows t)" if "i \<in> set ?sel" for i
    using that library_order_facts(1)[OF srt, of hs] stable_order_set[of hs] len
    by (auto dest!: in_set_takeD split: if_splits)
  then have "map (\<lambda>r. snd r ! j) (map ((!) (rows t)) ?sel) = map ((!) ds) ?sel"
    unfolding dj by simp
  then show ?thesis
    unfolding top_10_departments_by_hours_def nlargest_positions[OF hs ns srt]
    by (simp add: column_def j)
qed

lemma take_outside:
  assumes "sorted_wrt R xs" and "i \<in> set (take m xs)" and "j \<in> set xs" and "j \<notin> set (take m xs)"
  shows "R i j"
proof -
  have "j \<in> set (take m xs) \<union> set (drop m xs)"
    using assms(3) by (metis append_take_drop_id set_append)
  with assms(4) have jd: "j \<in> set (drop m xs)" by simp
  have "sorted_wrt R (take m xs @ drop m xs)" using assms(1) by simp
  with assms(2) jd show ?thesis unfolding sorted_wrt_append by blast
qed

lemma ranks_before_not_after: "ranks_before hs i j \<Longrightarrow> ranks_not_after hs i j"
  by (auto simp: ranks_before_def ranks_not_after_def)

lemma stable_order_not_after: "sorted_wrt (ranks_not_after hs) (stable_order hs)"
  by (rule sorted_wrt_mono_rel[OF _ stable_order_sorted]) (rule ranks_before_not_after)

lemma ties_reversed_is_argsort: "is_argsort (ties_reversed xs) xs"
proof -
  let ?ys = "sort_key (\<lambda>i. - (xs ! i)) [0..<length xs]"
  have "mset (rev ?ys) = mset [0..<length xs]" by simp
  then have 1: "sort (rev ?ys) = [0..<length xs]"
    by (intro properties_for_sort) simp_all
  have "sorted (map (\<lambda>i. - (xs ! i)) ?ys)" by (rule sorted_sort_key)
  then have "sorted_wrt (\<lambda>i j. xs ! j \<le> xs ! i) ?ys" by (simp only: sorted_map neg_le_iff_le)
  then have "sorted_wrt (\<lambda>a b. b \<le> a) (map ((!) xs) ?ys)" by (simp add: sorted_wrt_map)
  then have "sorted (rev (map ((!) xs) ?ys))" by (simp only: sorted_wrt_rev)
  then have 2: "sorted (map ((!) xs) (rev ?ys))" by (simp only: rev_map)
  from 1 2 show ?thesis by (simp add: is_argsort_def ties_reversed_def)
qed

lemmas top_10_defs = top_10_departments_by_hours_def nlargest_def column_def ties_reversed_def Let_def

lemma four_rows_top_10:
  "top_10_departments_by_hours ties_reversed four_rows = Inr [StrV ''d3'', StrV ''d2'', StrV ''d1'', StrV ''d0'']"
  by (simp add: top_10_defs four_rows_def)

lemma four_rows_more_top_10:
  "top_10_departments_by_hours ties_reversed four_rows_more
     = Inr [StrV ''support'', StrV ''hr'', StrV ''sales'', StrV ''IT'']"
  by (simp add: top_10_defs four_rows_more_def)

lemma three_rows_top_10:
  "top_10_departments_by_hours ties_reversed three_rows = Inr [StrV ''sales'', StrV ''hr'', StrV ''IT'']"
  by (simp add: top_10_defs three_rows_def)

lemma twelve_rows_top_10:
  "top_10_departments_by_hours argsort twelve_rows =
     Inr [StrV ''d4'', StrV ''d7'', StrV ''d2'', StrV ''d5'', StrV ''d9'',
          StrV ''d0'', StrV ''d3'', StrV ''d10'', StrV ''d6'', StrV ''d8'']"
  by (simp add: top_10_departments_by_hours_def nlargest_def column_def twelve_rows_def)

lemma fifteen_rows_top_10:
  "top_10_departments_by_hours argsort fifteen_rows =
     Inr [StrV ''hr'', StrV ''sales'', StrV ''management'', StrV ''accounting'', StrV ''IT'',
          StrV ''technical'', StrV ''RandD'', StrV ''sales'', StrV ''product_mng'', StrV ''sales'']"
  by (simp add: top_10_departments_by_hours_def nlargest_def column_def fifteen_rows_def)

lemma stable_order_no_missing:
  assumes "NaN \<notin> set hs"
  shows "stable_order hs = sort_key (\<lambda>i. - int_of (hs ! i)) [0..<length hs]"
proof -
  have nn: "hs ! i \<noteq> NaN" if "i < length hs" for i
    using assms nth_mem[OF that] by metis
  have "present_positions hs = [0..<length hs]"
    using nn by (simp add: present_positions_def filter_id_conv)
  moreover have "absent_positions hs = []"
    using nn by (simp add: absent_positions_def filter_empty_conv)
  ultimately show ?thesis by (simp add: stable_order_def)
qed

lemma sorted_positions_values:
  "map (\<lambda>i. - int_of (hs ! i)) (sort_key (\<lambda>i. - int_of (hs ! i)) [0..<length hs])
     = sort (map (\<lambda>h. - int_of h) hs)"
proof -
  have "map (\<lambda>i. - int_of (hs ! i)) [0..<length hs] = map (\<lambda>h. - int_of h) hs"
    by (intro nth_equalityI) simp_all
  then show ?thesis by (simp add: map_sort_key)
qed

lemma sort_negated:
  fixes xs :: "int list"
  assumes "sort xs = ys"
  shows "sort (map uminus xs) = rev (map uminus ys)"
proof -
  have m: "mset (rev (map uminus ys)) = mset (map uminus xs)"
  proof -
    have "mset ys = mset xs" using assms by (metis mset_sort)
    then have "mset (map uminus ys) = mset (map uminus xs)" by (metis mset_map)
    then show ?thesis by simp
  qed
  have "sorted ys" using assms by auto
  then have s: "sorted (rev (map uminus ys))"
    by (induction ys) (auto simp: sorted_append)
  from m s show ?thesis by (metis properties_for_sort)
qed

lemma top_10_of_fifteen:
  assumes hs: "column t ''average_monthly_hours'' = Inr hs" and ns: "\<not> list_ex is_str hs"
    and ds: "column t ''Department'' = Inr ds"
    and srt: "\<And>xs. is_argsort (argsort xs) xs"
    and vals: "sort (map int_of hs) = [100, 101, 102, 103, 104, 105, 106, 107, 108, 109, 110, 111, 112, 113, 114]"
  shows "\<exists>sel. top_10_departments_by_hours argsort t = Inr (map ((!) ds) sel)
           \<and> map (\<lambda>i. int_of (hs ! i)) sel = [114, 113, 112, 111, 110, 109, 108, 107, 106, 105]"
proof -
  let ?L = "[100, 101, 102, 103, 104, 105, 106, 107, 108, 109, 110, 111, 112, 113, 114] :: int list"
  have "length (sort (map int_of hs)) = length ?L" using vals by simp
  then have l15: "length hs = 15" by simp
  then have big: "\<not> length (rows t) \<le> 10" using column_length[OF hs] by simp
  have "0 \<notin> set (sort (map int_of hs))" unfolding vals by simp
  then have "0 \<notin> int_of ` set hs" by simp
  then have nonan: "NaN \<notin> set hs" by force
  let ?sel = "take 10 (stable_order hs)"
  have res: "top_10_departments_by_hours argsort t = Inr (map ((!) ds) ?sel)"
    using top_10_by_position[OF hs ns ds srt] big by simp
  have "sort (map (\<lambda>h. - int_of h) hs) = sort (map uminus (map int_of hs))"
    by (simp add: comp_def)
  also have "\<dots> = [-114, -113, -112, -111, -110, -109, -108, -107, -106, -105, -104, -103, -102, -101, -100]"
    using sort_negated[OF vals] by simp
  finally have "map (\<lambda>i. - int_of (hs ! i)) (stable_order hs)
      = [-114, -113, -112, -111, -110, -109, -108, -107, -106, -105, -104, -103, -102, -101, -100]"
    using sorted_positions_values[of hs] stable_order_no_missing[OF nonan] by simp
  then have "take 10 (map (\<lambda>i. - int_of (hs ! i)) (stable_order hs))
      = [-114, -113, -112, -111, -110, -109, -108, -107, -106, -105]"
    by simp
  then have "map (\<lambda>i. - int_of (hs ! i)) ?sel = [-114, -113, -112, -111, -110, -109, -108, -107, -106, -105]"
    by (simp add: take_map)
  then have "map uminus (map (\<lambda>i. - int_of (hs ! i)) ?sel)
      = map uminus [-114, -113, -112, -111, -110, -109, -108, -107, -106, -105]"
    by (rule arg_cong)
  then have v: "map (\<lambda>i. int_of (hs ! i)) ?sel = [114, 113, 112, 111, 110, 109, 108, 107, 106, 105]"
    by (simp add: comp_def)
  from res v show ?thesis by (intro exI[of _ ?sel] conjI)
qed

lemma fifteen_rows_hours:
  "column fifteen_rows ''average_monthly_hours'' =
     Inr [IntV 107, IntV 100, IntV 114, IntV 103, IntV 110, IntV 105, IntV 112, IntV 101,
          IntV 109, IntV 113, IntV 102, IntV 108, IntV 104, IntV 111, IntV 106]"
  by (simp add: fifteen_rows_def column_def)

lemma fifteen_rows_departments:
  "column fifteen_rows ''Department'' =
     Inr [StrV ''sales'', StrV ''IT'', StrV ''hr'', StrV ''support'', StrV ''IT'', StrV ''sales'',
          StrV ''management'', StrV ''hr'', StrV ''technical'', StrV ''sales'', StrV ''IT'',
          StrV ''RandD'', StrV ''marketing'', StrV ''accounting'', StrV ''product_mng'']"
  by (simp add: fifteen_rows_def column_def)

lemma four_rows_columns:
  "column four_rows ''average_monthly_hours'' = Inr [IntV 1, IntV 1, IntV 2, IntV 2]"
  "column four_rows ''Department'' = Inr [StrV ''d0'', StrV ''d1'', StrV ''d2'', StrV ''d3'']"
  by (simp_all add: four_rows_def column_def)

lemma four_rows_more_columns:
  "column four_rows_more ''average_monthly_hours'' = Inr [IntV 1, IntV 1, IntV 2, IntV 2]"
  "column four_rows_more ''Department''
     = Inr [StrV ''IT'', StrV ''sales'', StrV ''hr'', StrV ''support'']"
  by (simp_all add: four_rows_more_def column_def)

lemma three_rows_columns:
  "column three_rows ''average_monthly_hours'' = Inr [IntV 200, IntV 250, IntV 200]"
  "column three_rows ''Department'' = Inr [StrV ''IT'', StrV ''sales'', StrV ''hr'']"
  by (simp_all add: three_rows_def column_def)

lemma twelve_rows_columns:
  "column twelve_rows ''average_monthly_hours'' =
     Inr [IntV 5, NaN, IntV 7, IntV 5, IntV 9, IntV 7, IntV 3, IntV 8, IntV 3, IntV 6, IntV 4, IntV 2]"
  "column twelve_rows ''Department'' =
     Inr [StrV ''d0'', StrV ''d1'', StrV ''d2'', StrV ''d3'', StrV ''d4'', StrV ''d5'', StrV ''d6'',
          StrV ''d7'', StrV ''d8'', StrV ''d9'', StrV ''d10'', StrV ''d11'']"
  by (simp_all add: twelve_rows_def column_def)

lemma tie_order_broken:
  "ranks_before [IntV 1, IntV 1, IntV 2, IntV 2] 2 3"
  "\<not> sorted_wrt (ranks_before [IntV 1, IntV 1, IntV 2, IntV 2]) [3, 2, 1, 0]"
  by (simp_all add: ranks_before_def)

lemma ties_reversed_call: "is_argsort (ties_reversed [2, 2, 1, 1]) [2, 2, 1, 1]"
  by (rule ties_reversed_is_argsort)

text \<open>
  C6, as the code has it. Take a table of at least one row with a \<open>Department\<close> column and
  an \<open>average_monthly_hours\<close> column of integers below \<open>2^53\<close> in magnitude, cells possibly
  missing, and any library sort that keeps numpy's promise. The ranking returns the
  \<open>Department\<close> cells of a selection \<open>sel\<close> of row positions: ten of them (all, if the table has
  fewer), no row twice, in descending order of hours with missing hours last, and no row left
  out has more hours than a selected one. When the table has more than ten rows, rows with
  equal hours are ranked in table order, in the selection and against the rows left out; with
  ten rows or fewer that order is the library sort's and not fixed. In particular, fifteen
  rows whose hours are the values 100 to 114 in any order give the rows with 114, 113, ... down
  to 105 hours, in that order.
\<close>

theorem top_10_ranking:
  assumes hs: "column t ''average_monthly_hours'' = Inr hs"
    and num: "exact_cells (2 ^ 53) hs"
    and ds: "column t ''Department'' = Inr ds"
    and srt: "\<And>xs. is_argsort (argsort xs) xs"
    and some_row: "hs \<noteq> []"
  shows "(\<exists>sel. top_10_departments_by_hours argsort t = Inr (map ((!) ds) sel)
           \<and> length sel = min 10 (length (rows t))
           \<and> distinct sel
           \<and> (\<forall>i\<in>set sel. i < length (rows t))
           \<and> sorted_wrt (ranks_not_after hs) sel
           \<and> (\<forall>i\<in>set sel. \<forall>j<length (rows t). j \<notin> set sel \<longrightarrow> ranks_not_after hs i j)
           \<and> (10 < length (rows t) \<longrightarrow>
                sorted_wrt (ranks_before hs) sel
                \<and> (\<forall>i\<in>set sel. \<forall>j<length (rows t). j \<notin> set sel \<longrightarrow> ranks_before hs i j)))
         \<and> (sort (map int_of hs)
               = [100, 101, 102, 103, 104, 105, 106, 107, 108, 109, 110, 111, 112, 113, 114] \<longrightarrow>
            (\<exists>sel. top_10_departments_by_hours argsort t = Inr (map ((!) ds) sel)
               \<and> map (\<lambda>i. int_of (hs ! i)) sel
                   = [114, 113, 112, 111, 110, 109, 108, 107, 106, 105]))"
proof -
  note ns = exact_cells_not_str[OF num]
  have len: "length hs = length (rows t)" using hs by (rule column_length)
  let ?n = "length (rows t)"
  define ord where "ord = (if ?n \<le> 10 then library_order argsort hs else stable_order hs)"
  let ?ord = ord
  let ?sel = "take 10 ord"
  have ord_set: "set ?ord = {..<?n}"
    unfolding ord_def
    using library_order_facts(1)[OF srt, of hs] stable_order_set[of hs] len by simp
  have ord_dist: "distinct ?ord"
    unfolding ord_def
    using library_order_facts(2)[OF srt, of hs] stable_order_distinct[of hs] by simp
  have ord_len: "length ?ord = ?n"
    unfolding ord_def
    using library_order_length[OF srt, of hs] stable_order_length[of hs] len by simp
  have ord_na: "sorted_wrt (ranks_not_after hs) ?ord"
    unfolding ord_def
    using library_order_facts(3)[OF srt, of hs] stable_order_not_after[of hs] by simp
  have 1: "top_10_departments_by_hours argsort t = Inr (map ((!) ds) ?sel)"
    unfolding ord_def using hs ns ds srt by (rule top_10_by_position)
  have 2: "length ?sel = min 10 ?n" using ord_len by simp
  have 3: "distinct ?sel" using ord_dist by (rule distinct_take)
  have 4: "\<forall>i\<in>set ?sel. i < ?n"
  proof
    fix i assume "i \<in> set ?sel"
    then have "i \<in> set ?ord" by (rule in_set_takeD)
    then show "i < ?n" using ord_set by simp
  qed
  have 5: "sorted_wrt (ranks_not_after hs) ?sel" using ord_na by (rule sorted_wrt_take)
  have 6: "\<forall>i\<in>set ?sel. \<forall>j<?n. j \<notin> set ?sel \<longrightarrow> ranks_not_after hs i j"
  proof (intro ballI allI impI)
    fix i j assume i: "i \<in> set ?sel" and j: "j < ?n" "j \<notin> set ?sel"
    have "j \<in> set ?ord" using j(1) ord_set by blast
    with ord_na i show "ranks_not_after hs i j" using j(2) by (rule take_outside)
  qed
  have 7: "sorted_wrt (ranks_before hs) ?sel
           \<and> (\<forall>i\<in>set ?sel. \<forall>j<?n. j \<notin> set ?sel \<longrightarrow> ranks_before hs i j)" if "10 < ?n"
  proof -
    from that have o: "?ord = stable_order hs" by (simp add: ord_def)
    have "sorted_wrt (ranks_before hs) ?sel"
      unfolding o by (intro sorted_wrt_take stable_order_sorted)
    moreover have "ranks_before hs i j"
      if "i \<in> set (take 10 (stable_order hs))" "j < ?n" "j \<notin> set (take 10 (stable_order hs))" for i j
    proof -
      have "j \<in> set (stable_order hs)" using that(2) len by (simp add: stable_order_set)
      with stable_order_sorted that(1) show ?thesis using that(3) by (rule take_outside)
    qed
    ultimately show ?thesis unfolding o by blast
  qed
  from 1 2 3 4 5 6 7 have general: "\<exists>sel. top_10_departments_by_hours argsort t = Inr (map ((!) ds) sel)
           \<and> length sel = min 10 (length (rows t))
           \<and> distinct sel
           \<and> (\<forall>i\<in>set sel. i < length (rows t))
           \<and> sorted_wrt (ranks_not_after hs) sel
           \<and> (\<forall>i\<in>set sel. \<forall>j<length (rows t). j \<notin> set sel \<longrightarrow> ranks_not_after hs i j)
           \<and> (10 < length (rows t) \<longrightarrow>
                sorted_wrt (ranks_before hs) sel
                \<and> (\<forall>i\<in>set sel. \<forall>j<length (rows t). j \<notin> set sel \<longrightarrow> ranks_before hs i j))"
    by (intro exI[of _ ?sel] conjI impI) simp_all
  have fifteen: "sort (map int_of hs)
               = [100, 101, 102, 103, 104, 105, 106, 107, 108, 109, 110, 111, 112, 113, 114] \<longrightarrow>
            (\<exists>sel. top_10_departments_by_hours argsort t = Inr (map ((!) ds) sel)
               \<and> map (\<lambda>i. int_of (hs ! i)) sel
                   = [114, 113, 112, 111, 110, 109, 108, 107, 106, 105])"
    using top_10_of_fifteen[OF hs ns ds srt] by blast
  from general fifteen show ?thesis by (rule conjI)
qed

text \<open>
  Four rows with the hours 1, 1, 2, 2 and a library sort that puts equal values in reverse:
  the departments come back as row 3, 2, 1, 0, so the two rows with 2 hours are not in table
  order, although row 2 ranks before row 3.
\<close>

theorem top_10_tie_order_counterexample:
  "column four_rows_more ''average_monthly_hours'' = Inr [IntV 1, IntV 1, IntV 2, IntV 2]
   \<and> column four_rows_more ''Department''
       = Inr [StrV ''IT'', StrV ''sales'', StrV ''hr'', StrV ''support'']
   \<and> is_argsort (ties_reversed [2, 2, 1, 1]) [2, 2, 1, 1]
   \<and> top_10_departments_by_hours ties_reversed four_rows_more
       = Inr [StrV ''support'', StrV ''hr'', StrV ''sales'', StrV ''IT'']
   \<and> ranks_before [IntV 1, IntV 1, IntV 2, IntV 2] 2 3
   \<and> \<not> sorted_wrt (ranks_before [IntV 1, IntV 1, IntV 2, IntV 2]) [3, 2, 1, 0]"
  using four_rows_more_columns ties_reversed_call four_rows_more_top_10 tie_order_broken
  by simp

theorem top_10_ranking_witness:
  "column fifteen_rows ''average_monthly_hours'' =
     Inr [IntV 107, IntV 100, IntV 114, IntV 103, IntV 110, IntV 105, IntV 112, IntV 101,
          IntV 109, IntV 113, IntV 102, IntV 108, IntV 104, IntV 111, IntV 106]
   \<and> exact_cells (2 ^ 53) [IntV 107, IntV 100, IntV 114, IntV 103, IntV 110, IntV 105, IntV 112, IntV 101,
          IntV 109, IntV 113, IntV 102, IntV 108, IntV 104, IntV 111, IntV 106]
   \<and> column fifteen_rows ''Department'' =
     Inr [StrV ''sales'', StrV ''IT'', StrV ''hr'', StrV ''support'', StrV ''IT'', StrV ''sales'',
          StrV ''management'', StrV ''hr'', StrV ''technical'', StrV ''sales'', StrV ''IT'',
          StrV ''RandD'', StrV ''marketing'', StrV ''accounting'', StrV ''product_mng'']
   \<and> top_10_departments_by_hours ties_reversed fifteen_rows =
     Inr [StrV ''hr'', StrV ''sales'', StrV ''management'', StrV ''accounting'', StrV ''IT'',
          StrV ''technical'', StrV ''RandD'', StrV ''sales'', StrV ''product_mng'', StrV ''sales'']
   \<and> (\<exists>sel. top_10_departments_by_hours ties_reversed fifteen_rows =
          Inr (map ((!) [StrV ''sales'', StrV ''IT'', StrV ''hr'', StrV ''support'', StrV ''IT'', StrV ''sales'',
          StrV ''management'', StrV ''hr'', StrV ''technical'', StrV ''sales'', StrV ''IT'',
          StrV ''RandD'', StrV ''marketing'', StrV ''accounting'', StrV ''product_mng'']) sel)
        \<and> length sel = 10 \<and> distinct sel
        \<and> sorted_wrt (ranks_before [IntV 107, IntV 100, IntV 114, IntV 103, IntV 110, IntV 105, IntV 112, IntV 101,
          IntV 109, IntV 113, IntV 102, IntV 108, IntV 104, IntV 111, IntV 106]) sel)
   \<and> (\<exists>sel. top_10_departments_by_hours ties_reversed fifteen_rows =
          Inr (map ((!) [StrV ''sales'', StrV ''IT'', StrV ''hr'', StrV ''support'', StrV ''IT'', StrV ''sales'',
          StrV ''management'', StrV ''hr'', StrV ''technical'', StrV ''sales'', StrV ''IT'',
          StrV ''RandD'', StrV ''marketing'', StrV ''accounting'', StrV ''product_mng'']) sel)
        \<and> map (\<lambda>i. int_of ([IntV 107, IntV 100, IntV 114, IntV 103, IntV 110, IntV 105, IntV 112, IntV 101,
          IntV 109, IntV 113, IntV 102, IntV 108, IntV 104, IntV 111, IntV 106] ! i)) sel = [114, 113, 112, 111, 110, 109, 108, 107, 106, 105])
   \<and> exact_cells (2 ^ 53) [IntV 1, IntV 1, IntV 2, IntV 2]
   \<and> top_10_departments_by_hours ties_reversed four_rows
       = Inr [StrV ''d3'', StrV ''d2'', StrV ''d1'', StrV ''d0'']
   \<and> (\<exists>sel. top_10_departments_by_hours ties_reversed four_rows =
          Inr (map ((!) [StrV ''d0'', StrV ''d1'', StrV ''d2'', StrV ''d3'']) sel)
        \<and> length sel = 4 \<and> distinct sel
        \<and> sorted_wrt (ranks_not_after [IntV 1, IntV 1, IntV 2, IntV 2]) sel)"
proof -
  let ?hs = "[IntV 107, IntV 100, IntV 114, IntV 103, IntV 110, IntV 105, IntV 112, IntV 101,
          IntV 109, IntV 113, IntV 102, IntV 108, IntV 104, IntV 111, IntV 106]"
  let ?ds = "[StrV ''sales'', StrV ''IT'', StrV ''hr'', StrV ''support'', StrV ''IT'', StrV ''sales'',
          StrV ''management'', StrV ''hr'', StrV ''technical'', StrV ''sales'', StrV ''IT'',
          StrV ''RandD'', StrV ''marketing'', StrV ''accounting'', StrV ''product_mng'']"
  have num: "exact_cells (2 ^ 53) ?hs" by (simp add: exact_cells_def)
  have some_row: "?hs \<noteq> []" by simp
  have n: "min 10 (length (rows fifteen_rows)) = 10" "10 < length (rows fifteen_rows)"
    by (simp_all add: fifteen_rows_def)
  have srt: "sort (map int_of ?hs)
      = [100, 101, 102, 103, 104, 105, 106, 107, 108, 109, 110, 111, 112, 113, 114]"
    by simp
  note th = top_10_ranking[OF fifteen_rows_hours num fifteen_rows_departments
              ties_reversed_is_argsort some_row]
  from th n have 1: "\<exists>sel. top_10_departments_by_hours ties_reversed fifteen_rows =
          Inr (map ((!) ?ds) sel)
        \<and> length sel = 10 \<and> distinct sel \<and> sorted_wrt (ranks_before ?hs) sel"
    by (elim conjE exE) (intro exI conjI, assumption, simp_all)
  from th srt have 2: "\<exists>sel. top_10_departments_by_hours ties_reversed fifteen_rows =
          Inr (map ((!) ?ds) sel)
        \<and> map (\<lambda>i. int_of (?hs ! i)) sel = [114, 113, 112, 111, 110, 109, 108, 107, 106, 105]"
    by blast
  have num4: "exact_cells (2 ^ 53) [IntV 1, IntV 1, IntV 2, IntV 2]"
    by (simp add: exact_cells_def)
  have some_row4: "[IntV 1, IntV 1, IntV 2, IntV 2] \<noteq> []" by simp
  have n4: "min 10 (length (rows four_rows)) = 4" by (simp add: four_rows_def)
  note th4 = top_10_ranking[OF four_rows_columns(1) num4 four_rows_columns(2)
               ties_reversed_is_argsort some_row4]
  from th4 n4 have 3: "\<exists>sel. top_10_departments_by_hours ties_reversed four_rows =
          Inr (map ((!) [StrV ''d0'', StrV ''d1'', StrV ''d2'', StrV ''d3'']) sel)
        \<and> length sel = 4 \<and> distinct sel
        \<and> sorted_wrt (ranks_not_after [IntV 1, IntV 1, IntV 2, IntV 2]) sel"
    by (elim conjE exE) (intro exI conjI, assumption, simp_all)
  from fifteen_rows_hours num fifteen_rows_departments fifteen_rows_top_10 1 2 num4
    four_rows_top_10 3
  show ?thesis by (intro conjI)
qed

text \<open>
  C10, as the code has it. With at least one and fewer than ten rows (the same two columns,
  hours as above, any library sort that keeps numpy's promise) the ranking raises nothing and returns one
  \<open>Department\<close> cell per row of the table: the selection holds every row position once, in
  descending order of hours with missing hours last. The order among rows with equal hours is
  the library sort's; it need not be the table's.
\<close>

theorem top_10_fewer_than_ten_rows:
  assumes hs: "column t ''average_monthly_hours'' = Inr hs"
    and num: "exact_cells (2 ^ 53) hs"
    and ds: "column t ''Department'' = Inr ds"
    and srt: "\<And>xs. is_argsort (argsort xs) xs"
    and few: "length (rows t) < 10"
    and some_row: "hs \<noteq> []"
  shows "\<exists>sel. top_10_departments_by_hours argsort t = Inr (map ((!) ds) sel)
           \<and> length (map ((!) ds) sel) = length (rows t)
           \<and> distinct sel
           \<and> set sel = {..<length (rows t)}
           \<and> sorted_wrt (ranks_not_after hs) sel"
proof -
  note ns = exact_cells_not_str[OF num]
  have len: "length hs = length (rows t)" using hs by (rule column_length)
  let ?sel = "library_order argsort hs"
  have l: "length ?sel = length (rows t)" using library_order_length[OF srt, of hs] len by simp
  with few have "take 10 ?sel = ?sel" by simp
  with few have "top_10_departments_by_hours argsort t = Inr (map ((!) ds) ?sel)"
    using top_10_by_position[OF hs ns ds srt] by simp
  moreover have "length (map ((!) ds) ?sel) = length (rows t)" using l by simp
  moreover have "distinct ?sel" using srt by (rule library_order_facts(2))
  moreover have "set ?sel = {..<length (rows t)}"
    using library_order_facts(1)[OF srt, of hs] len by simp
  moreover have "sorted_wrt (ranks_not_after hs) ?sel" using srt by (rule library_order_facts(3))
  ultimately show ?thesis by blast
qed

text \<open>
  Four rows with the hours 1, 1, 2, 2 and the library sort that puts equal values in reverse:
  the result is \<open>d3, d2, d1, d0\<close>, where table order among equal hours would give
  \<open>d2, d3, d0, d1\<close>.
\<close>

theorem top_10_few_rows_tie_order_counterexample:
  "length (rows four_rows) < 10
   \<and> column four_rows ''average_monthly_hours'' = Inr [IntV 1, IntV 1, IntV 2, IntV 2]
   \<and> column four_rows ''Department'' = Inr [StrV ''d0'', StrV ''d1'', StrV ''d2'', StrV ''d3'']
   \<and> is_argsort (ties_reversed [2, 2, 1, 1]) [2, 2, 1, 1]
   \<and> top_10_departments_by_hours ties_reversed four_rows
       = Inr [StrV ''d3'', StrV ''d2'', StrV ''d1'', StrV ''d0'']
   \<and> map ((!) [StrV ''d0'', StrV ''d1'', StrV ''d2'', StrV ''d3'']) [3, 2, 1, 0]
       = [StrV ''d3'', StrV ''d2'', StrV ''d1'', StrV ''d0'']
   \<and> \<not> sorted_wrt (ranks_before [IntV 1, IntV 1, IntV 2, IntV 2]) [3, 2, 1, 0]"
  using four_rows_columns ties_reversed_call four_rows_top_10 tie_order_broken
  by (simp add: four_rows_def)

theorem top_10_fewer_than_ten_rows_witness:
  "column three_rows ''average_monthly_hours'' = Inr [IntV 200, IntV 250, IntV 200]
   \<and> exact_cells (2 ^ 53) [IntV 200, IntV 250, IntV 200]
   \<and> column three_rows ''Department'' = Inr [StrV ''IT'', StrV ''sales'', StrV ''hr'']
   \<and> length (rows three_rows) < 10
   \<and> top_10_departments_by_hours ties_reversed three_rows
       = Inr [StrV ''sales'', StrV ''hr'', StrV ''IT'']
   \<and> (\<exists>sel. top_10_departments_by_hours ties_reversed three_rows
                = Inr (map ((!) [StrV ''IT'', StrV ''sales'', StrV ''hr'']) sel)
          \<and> length sel = 3 \<and> set sel = {..<3}
          \<and> sorted_wrt (ranks_not_after [IntV 200, IntV 250, IntV 200]) sel)"
proof -
  have num: "exact_cells (2 ^ 53) [IntV 200, IntV 250, IntV 200]" by (simp add: exact_cells_def)
  have few: "length (rows three_rows) < 10" by (simp add: three_rows_def)
  have n: "length (rows three_rows) = 3" by (simp add: three_rows_def)
  have some_row: "[IntV 200, IntV 250, IntV 200] \<noteq> []" by simp
  from top_10_fewer_than_ten_rows[OF three_rows_columns(1) num three_rows_columns(2)
         ties_reversed_is_argsort few some_row]
  have "\<exists>sel. top_10_departments_by_hours ties_reversed three_rows
                = Inr (map ((!) [StrV ''IT'', StrV ''sales'', StrV ''hr'']) sel)
          \<and> length sel = 3 \<and> set sel = {..<3}
          \<and> sorted_wrt (ranks_not_after [IntV 200, IntV 250, IntV 200]) sel"
    unfolding n by auto
  with three_rows_columns num few three_rows_top_10
  show ?thesis by blast
qed

section \<open>Department salary pivot\<close>






lemma set_dept_labels [simp]: "set (dept_labels xs) = set xs"
  by (simp add: dept_labels_def)

lemma distinct_dept_labels [simp]: "distinct (dept_labels xs)"
  by (simp add: dept_labels_def)

lemma set_pair_labels [simp]: "set (pair_labels ps) = set ps"
  by (simp add: pair_labels_def)





text \<open>
  A median of integer cells is an integer or ends in one half, so rounding it to two decimals
  leaves it as it is.
\<close>

lemma round2_half_integer: "round2 (of_int k / 2) = of_int k / 2"
proof -
  have y: "(of_int k / 2 :: rat) * 100 = of_int (50 * k)" by simp
  show ?thesis
    unfolding round2_def Let_def y floor_of_int by simp
qed

lemma median_half_integer: "median xs = Some m \<Longrightarrow> \<exists>k. m = of_int k / 2"
proof -
  assume m: "median xs = Some m"
  let ?s = "sort xs" and ?n = "length (sort xs)"
  show ?thesis
  proof (cases "odd ?n")
    case True
    with m have "m = of_int (2 * (?s ! (?n div 2))) / 2"
      by (auto simp: median_def Let_def split: if_splits)
    then show ?thesis by blast
  next
    case False
    with m have "m = of_int (?s ! (?n div 2 - 1) + ?s ! (?n div 2)) / 2"
      by (auto simp: median_def Let_def split: if_splits)
    then show ?thesis by blast
  qed
qed

lemma group_median_exact:
  "group_median ds ls ss hs d l s = median (group_hours ds ls ss hs d l s)"
proof (cases "median (group_hours ds ls ss hs d l s)")
  case None
  then show ?thesis by (simp add: group_median_def)
next
  case (Some m)
  with median_half_integer obtain k where "m = of_int k / 2" by blast
  with Some show ?thesis by (simp add: group_median_def round2_half_integer)
qed









section \<open>Schema Validator\<close>

lemma validate_dataset_iff: "validate_dataset t \<longleftrightarrow> set required_columns \<subseteq> set (columns t)"
  by (auto simp: validate_dataset_def missing_columns_def filter_empty_conv)

lemma set_missing_columns: "set (missing_columns t) = set required_columns - set (columns t)"
  by (auto simp: missing_columns_def)

text \<open>
  C5, as the code has it. The validator compares the table's columns with the ten required
  names; the names it reports are exactly the required ones the table lacks. Only
  \<^verbatim>\<open>employees_metrics\<close> calls it: with every required column present the validator says yes
  and the aggregation runs; with one missing it says no, reports a non-empty list, and the
  method fails with \<^verbatim>\<open>ValueError("Dataset validation failed")\<close> whatever the aggregation
  would compute. The report calls \<^verbatim>\<open>employees_metrics\<close> before every other query, so a report
  on a table that lacks a required column fails with that error and runs no other query.
\<close>

theorem schema_checked_by_employees_metrics:
  "length required_columns = 10 \<and> distinct required_columns
   \<and> set (missing_columns t) = set required_columns - set (columns t)
   \<and> (if set required_columns \<subseteq> set (columns t)
       then validate_dataset t \<and> employees_metrics fa t = aggregate_metrics fa t
       else \<not> validate_dataset t \<and> missing_columns t \<noteq> []
            \<and> employees_metrics fa t = Inl (ValueError ''Dataset validation failed''))
   \<and> (\<not> set required_columns \<subseteq> set (columns u) \<longrightarrow>
        generate_comprehensive_report argsort fa other (Some u) = Inl (ValueError ''Dataset validation failed''))"
proof -
  have 1: "length required_columns = 10 \<and> distinct required_columns"
    by (simp add: required_columns_def)
  have 2: "employees_metrics fa t = aggregate_metrics fa t" if "set required_columns \<subseteq> set (columns t)"
    using that by (simp add: employees_metrics_def validate_dataset_iff)
  have 3: "employees_metrics fa t = Inl (ValueError ''Dataset validation failed'')"
    if "\<not> set required_columns \<subseteq> set (columns t)"
    using that by (simp add: employees_metrics_def validate_dataset_iff)
  have 4: "missing_columns t \<noteq> []" if "\<not> set required_columns \<subseteq> set (columns t)"
    using that validate_dataset_iff[of t] by (auto simp: validate_dataset_def)
  have 5: "generate_comprehensive_report argsort fa other (Some u) = Inl (ValueError ''Dataset validation failed'')"
    if "\<not> set required_columns \<subseteq> set (columns u)"
    using that
    by (simp add: generate_comprehensive_report_def employees_metrics_def validate_dataset_iff)
  show ?thesis
    using 1 2 3 4 5 set_missing_columns[of t] validate_dataset_iff[of t] by simp
qed

text \<open>
  The table of fifteen rows has only the columns \<open>Department\<close> and \<open>average_monthly_hours\<close>.
  The validator rejects it, and the ranking, called on it, still returns its ten departments.
\<close>

theorem top_10_skips_validation_counterexample:
  "\<not> validate_dataset fifteen_rows
   \<and> missing_columns fifteen_rows =
       [''number_project'', ''time_spend_company'', ''Work_accident'', ''promotion_last_5years'',
        ''salary'', ''satisfaction_level'', ''last_evaluation'', ''left'']
   \<and> top_10_departments_by_hours ties_reversed fifteen_rows =
     Inr [StrV ''hr'', StrV ''sales'', StrV ''management'', StrV ''accounting'', StrV ''IT'',
          StrV ''technical'', StrV ''RandD'', StrV ''sales'', StrV ''product_mng'', StrV ''sales'']"
  using fifteen_rows_top_10
  by (simp add: validate_dataset_def missing_columns_def required_columns_def fifteen_rows_def)

text \<open>
  A table with every required column, four rows, all of them with \<open>left = 0\<close>: the validator
  accepts it and the aggregation runs.
\<close>

theorem schema_checked_by_employees_metrics_witness:
  "\<not> set required_columns \<subseteq> set (columns fifteen_rows)
   \<and> \<not> validate_dataset fifteen_rows
   \<and> employees_metrics counting_aggs fifteen_rows
       = Inl (ValueError ''Dataset validation failed'')
   \<and> generate_comprehensive_report ties_reversed counting_aggs constant_queries (Some fifteen_rows)
       = Inl (ValueError ''Dataset validation failed'')
   \<and> set required_columns \<subseteq> set (columns metrics_example)
   \<and> validate_dataset metrics_example
   \<and> employees_metrics counting_aggs metrics_example
       = aggregate_metrics counting_aggs metrics_example"
proof -
  have no: "\<not> set required_columns \<subseteq> set (columns fifteen_rows)"
    by (simp add: required_columns_def fifteen_rows_def)
  have yes: "set required_columns \<subseteq> set (columns metrics_example)"
    by (simp add: required_columns_def metrics_example_def)
  from schema_checked_by_employees_metrics
         [where t = fifteen_rows and fa = counting_aggs and u = fifteen_rows
            and argsort = ties_reversed and other = constant_queries] no
  have 1: "\<not> validate_dataset fifteen_rows
     \<and> employees_metrics counting_aggs fifteen_rows
         = Inl (ValueError ''Dataset validation failed'')
     \<and> generate_comprehensive_report ties_reversed counting_aggs constant_queries (Some fifteen_rows)
         = Inl (ValueError ''Dataset validation failed'')"
    by simp
  from schema_checked_by_employees_metrics
         [where t = metrics_example and fa = counting_aggs and u = fifteen_rows
            and argsort = ties_reversed and other = constant_queries] yes
  have 2: "validate_dataset metrics_example
     \<and> employees_metrics counting_aggs metrics_example
         = aggregate_metrics counting_aggs metrics_example"
    by simp
  from no yes 1 2 show ?thesis by blast
qed


section \<open>Employee metrics by group\<close>

lemma group_cells_by_position:
  "length cs = length ls \<Longrightarrow> group_cells ls cs g = cells_of_group ls cs g"
proof -
  assume len: "length cs = length ls"
  have "zip ls cs = map (\<lambda>i. (ls ! i, cs ! i)) [0..<length ls]"
    using len by (intro nth_equalityI) simp_all
  then have "group_cells ls cs g
      = map snd (filter (\<lambda>(l, c). l = g) (map (\<lambda>i. (ls ! i, cs ! i)) [0..<length ls]))"
    by (simp add: group_cells_def)
  also have "\<dots> = map ((!) cs) (filter (\<lambda>i. ls ! i = g) [0..<length ls])"
    by (simp add: filter_map comp_def)
  finally show ?thesis by (simp add: cells_of_group_def rows_of_group_def)
qed

lemma count_bigger_5_filter:
  "count_bigger_5 vs = int (length (filter (\<lambda>v. is_int v \<and> 5 < int_of v) vs))"
proof (induction vs)
  case Nil
  show ?case by (simp add: count_bigger_5_def)
next
  case (Cons v vs)
  then show ?case by (cases v) (simp_all add: count_bigger_5_def)
qed

lemma count_bigger_5_rows:
  "count_bigger_5 (cells_of_group ls np g) = more_than_five ls np g"
  by (simp add: count_bigger_5_filter cells_of_group_def more_than_five_def filter_map comp_def)

lemma rounded_median: "map_option round2 (median xs) = median xs"
proof (cases "median xs")
  case None
  then show ?thesis by simp
next
  case (Some m)
  with median_half_integer obtain k where "m = of_int k / 2" by blast
  with Some show ?thesis by (simp add: round2_half_integer)
qed

lemma group_labels:
  "set (sort_key val_key (remdups (filter (\<lambda>l. l \<noteq> NaN) ls))) = {g. g \<in> set ls \<and> g \<noteq> NaN}"
  by auto


lemma aggregate_metrics_result:
  assumes "column t ''left'' = Inr ls" "column t ''number_project'' = Inr np"
    and "column t ''time_spend_company'' = Inr tc" "column t ''Work_accident'' = Inr wa"
    and "column t ''last_evaluation'' = Inr le"
    and "\<not> list_ex is_str np" "\<not> list_ex is_str tc" "\<not> list_ex is_str wa" "\<not> list_ex is_str le"
  shows "aggregate_metrics fa t = Inr
     (map (\<lambda>(k, f). (k, map (\<lambda>g. (g, f g)) (sort_key val_key (remdups (filter (\<lambda>l. l \<noteq> NaN) ls)))))
        [((''number_project'', ''median''),
            \<lambda>g. Exact (median (present_ints (cells_of_group ls np g)))),
         ((''number_project'', ''count_bigger_5''), \<lambda>g. Count (more_than_five ls np g)),
         ((''time_spend_company'', ''mean''),
            \<lambda>g. Float (round64 fa (mean64 fa (cells_of_group ls tc g)))),
         ((''time_spend_company'', ''median''),
            \<lambda>g. Exact (median (present_ints (cells_of_group ls tc g)))),
         ((''Work_accident'', ''mean''),
            \<lambda>g. Float (round64 fa (mean64 fa (cells_of_group ls wa g)))),
         ((''last_evaluation'', ''mean''),
            \<lambda>g. Float (round64 fa (mean64 fa (cells_of_group ls le g)))),
         ((''last_evaluation'', ''std''),
            \<lambda>g. Float (round64 fa (std64 fa (cells_of_group ls le g))))])"
proof -
  have len: "length np = length ls" "length tc = length ls" "length wa = length ls"
    "length le = length ls"
    using assms(1-5) by (simp_all add: column_length)
  show ?thesis
    unfolding aggregate_metrics_def
    using assms(6-9)
    by (simp add: assms(1-5) Let_def rounded_median group_cells_by_position len
        count_bigger_5_rows)
qed

lemma metrics_example_columns:
  "column metrics_example ''left'' = Inr [IntV 0, IntV 0, IntV 0, IntV 0]"
  "column metrics_example ''number_project'' = Inr [IntV 2, IntV 7, IntV 6, IntV 5]"
  "column metrics_example ''time_spend_company'' = Inr [IntV 3, IntV 6, IntV 4, IntV 5]"
  "column metrics_example ''Work_accident'' = Inr [IntV 0, IntV 1, IntV 0, IntV 0]"
  "column metrics_example ''last_evaluation''
     = Inr [FloatV ''0.53'', FloatV ''0.86'', FloatV ''0.88'', FloatV ''0.87'']"
  by (simp_all add: column_def metrics_example_def)

lemma metrics_example_valid: "validate_dataset metrics_example"
  by (simp add: validate_dataset_def missing_columns_def required_columns_def metrics_example_def)


lemma metrics_example_cells:
  "exact_cells (2 ^ 53) [IntV 0, IntV 0, IntV 0, IntV 0]"
  "filter (\<lambda>l. l \<noteq> NaN) [IntV 0, IntV 0, IntV 0, IntV 0] \<noteq> []"
  "exact_cells (2 ^ 45) [IntV 2, IntV 7, IntV 6, IntV 5]"
  "exact_cells (2 ^ 45) [IntV 3, IntV 6, IntV 4, IntV 5]"
  "\<not> list_ex is_str [IntV 0, IntV 1, IntV 0, IntV 0]"
  "\<not> list_ex is_str [FloatV ''0.53'', FloatV ''0.86'', FloatV ''0.88'', FloatV ''0.87'']"
  by (simp_all add: exact_cells_def)

lemma metrics_example_result:
  "employees_metrics counting_aggs metrics_example =
     Inr [((''number_project'', ''median''), [(IntV 0, Exact (Some (11 / 2)))]),
          ((''number_project'', ''count_bigger_5''), [(IntV 0, Count 2)]),
          ((''time_spend_company'', ''mean''), [(IntV 0, Float 4)]),
          ((''time_spend_company'', ''median''), [(IntV 0, Exact (Some (9 / 2)))]),
          ((''Work_accident'', ''mean''), [(IntV 0, Float 4)]),
          ((''last_evaluation'', ''mean''), [(IntV 0, Float 4)]),
          ((''last_evaluation'', ''std''), [(IntV 0, Float 4)])]"
  using metrics_example_valid metrics_example_cells
  by (simp add: employees_metrics_def
      aggregate_metrics_result[OF metrics_example_columns exact_cells_not_str exact_cells_not_str]
      counting_aggs_def cells_of_group_def rows_of_group_def more_than_five_def present_ints_def
      median_def upt_rec[of 0] upt_rec[of "Suc 0"] upt_rec[of 2] upt_rec[of 3] upt_rec[of 4])


end
